theory Spec2Isabelle
  imports Complex_Main "HOL-Library.Word"
begin

section \<open>The aquarium viewer: data model\<close>

text \<open>
  The program is one C++ file: \<^verbatim>\<open>loadTex\<close> (texture cache), \<^verbatim>\<open>loadOBJ\<close> (importer),
  \<^verbatim>\<open>drawMesh\<close> and the frame loop of \<^verbatim>\<open>main\<close>. Its globals become the fields of one
  state record that every function takes and returns. Calls into the collaborators
  (stb_image, OpenGL, GLFW, stderr) are appended, in program order and with their
  arguments, to the field \<open>calls\<close>; what the collaborators answer is read from an
  environment record.

  A C++ \<^verbatim>\<open>float\<close> or \<^verbatim>\<open>double\<close> is modelled by the real number it denotes. Copies and
  comparisons of floats are exact; an arithmetic operation is the exact operation
  followed by rounding to the format (\<open>f32\<close>, \<open>f64\<close> below), as IEEE 754 has it, every
  operation rounded on its own. Infinities and NaN are outside the model. The literal
  \<^verbatim>\<open>0.999f\<close> is the constant \<open>opaque_limit\<close>, the real 0.999: it denotes the float nearest
  to 0.999, no float lies between the two, and so \<^verbatim>\<open>d < 0.999f\<close> holds of a float \<open>d\<close>
  exactly when \<open>d < 0.999\<close> does.
\<close>

type_synonym GLuint = "32 word"
type_synonym GLint = "32 word"  \<comment> \<open>signed, read with \<open>sint\<close>\<close>
type_synonym GLsizei = "32 word"  \<comment> \<open>signed, read with \<open>sint\<close>\<close>
type_synonym vec3 = "real \<times> real \<times> real"

datatype GLenum =
    GL_TEXTURE_2D | GL_RGB | GL_RGBA | GL_UNSIGNED_BYTE
  | GL_TEXTURE_MIN_FILTER | GL_TEXTURE_MAG_FILTER | GL_LINEAR
  | GL_ARRAY_BUFFER | GL_STATIC_DRAW | GL_FLOAT | GL_TEXTURE0 | GL_TRIANGLES

text \<open>What \<^verbatim>\<open>stbi_load\<close> hands back on success: width, height, channel count, pixels.\<close>

record image =
  img_w :: int
  img_h :: int
  img_n :: int
  img_d :: "8 word list"

text \<open>
  The calls the program makes into its collaborators. \<open>'m\<close> is \<^verbatim>\<open>glm::mat4\<close>, which
  the program only passes around.
\<close>

datatype 'm call =
    StbiLoad string
  | StbiImageFree
  | FprintfStderr string
  | GenTextures GLuint
  | BindTexture GLenum GLuint
  | TexImage2D GLenum int GLenum int int int GLenum GLenum "8 word list"
  | TexParameteri GLenum GLenum GLenum
  | GenVertexArrays GLuint
  | BindVertexArray GLuint
  | GenBuffers GLuint
  | BindBuffer GLenum GLuint
  | BufferData GLenum nat "real list" GLenum
  | EnableVertexAttribArray nat
  | VertexAttribPointer nat int GLenum bool int nat
  | Uniform1i GLint int
  | Uniform3fv GLint int vec3
  | Uniform1f GLint real
  | UniformMatrix4fv GLint int bool 'm
  | ActiveTexture GLenum
  | DrawArrays GLenum int GLsizei
  | Clear
  | DepthMask bool
  | SwapBuffers
  | PollEvents

text \<open>\<^verbatim>\<open>struct Mesh\<close>.\<close>

record Mesh =
  vao :: GLuint
  vboPos :: GLuint
  vboUV :: GLuint
  tex :: GLuint
  hasTex :: bool
  kd :: vec3
  verts :: GLsizei
  transparent :: bool
  opacity :: real

text \<open>
  The globals \<^verbatim>\<open>meshes\<close>, \<^verbatim>\<open>texCache\<close>, \<^verbatim>\<open>aspect\<close>, \<^verbatim>\<open>ax\<close>, \<^verbatim>\<open>ay\<close>, \<^verbatim>\<open>sx\<close>, \<^verbatim>\<open>sy\<close>,
  the trace of collaborator calls, and the number of object names the GL driver has
  generated so far.
\<close>

record 'm state =
  meshes :: "Mesh list"
  texCache :: "string \<rightharpoonup> GLuint"
  aspect :: real
  ax :: real
  ay :: real
  sx :: real
  sy :: real
  calls :: "'m call list"
  gens :: nat

definition init_state :: "'m state" where
  "init_state = \<lparr>meshes = [], texCache = Map.empty, aspect = 1, ax = 0, ay = 0, sx = 0, sy = 0,
     calls = [], gens = 0\<rparr>"

definition emit :: "'m call list \<Rightarrow> 'm state \<Rightarrow> 'm state" where
  "emit cs s = s\<lparr>calls := calls s @ cs\<rparr>"

definition opaque_limit :: real where
  "opaque_limit = 0.999"

subsection \<open>Binary floating point\<close>

text \<open>
  Rounding to nearest, ties to even, to a binary format of \<open>p\<close> significant bits whose
  least normal exponent is \<open>emin\<close>. \<open>pow2 e\<close> is 2 to the power \<open>e\<close>, and \<open>expo a\<close> is the
  exponent of \<open>a > 0\<close>, the \<open>e\<close> with \<open>pow2 e \<le> a < pow2 (e + 1)\<close>; below \<open>pow2 emin\<close> the
  spacing stays that of the least normal numbers (subnormals). The format has no largest
  exponent here: the machine rounds a magnitude of \<open>pow2 128\<close> (for \<^verbatim>\<open>float\<close>) or more to
  infinity, which is outside the model.
\<close>

function log2_floor :: "nat \<Rightarrow> nat" where
  "log2_floor n = (if n < 2 then 0 else Suc (log2_floor (n div 2)))"
  by pat_completeness auto
termination
  by (relation "measure id") auto

declare log2_floor.simps [simp del]

definition pow2 :: "int \<Rightarrow> real" where
  "pow2 e = (if 0 \<le> e then 2 ^ nat e else 1 / 2 ^ nat (- e))"

definition expo :: "real \<Rightarrow> int" where
  "expo a =
     (if 1 \<le> a then int (log2_floor (nat \<lfloor>a\<rfloor>))
      else (let k = log2_floor (nat \<lfloor>1 / a\<rfloor>)
            in if a * 2 ^ k = 1 then - int k else - int k - 1))"

text \<open>The integer nearest to \<open>m\<close>, the even one of two that are equally near.\<close>

definition rne :: "real \<Rightarrow> int" where
  "rne m =
     (let f = \<lfloor>m\<rfloor>; d = m - of_int f
      in if d < 1 / 2 then f else if 1 / 2 < d then f + 1 else if even f then f else f + 1)"

definition fp_round :: "nat \<Rightarrow> int \<Rightarrow> real \<Rightarrow> real" where
  "fp_round p emin x =
     (if x = 0 then 0
      else (let e = max (expo \<bar>x\<bar>) emin; q = pow2 (e - int p + 1)
            in of_int (rne (x / q)) * q))"

text \<open>\<^verbatim>\<open>float\<close> is binary32 and \<^verbatim>\<open>double\<close> is binary64.\<close>

definition f32 :: "real \<Rightarrow> real" where
  "f32 = fp_round 24 (- 126)"

definition f64 :: "real \<Rightarrow> real" where
  "f64 = fp_round 53 (- 1022)"

subsection \<open>The collaborators\<close>

text \<open>
  The types of tiny\_obj\_loader, as far as the program reads them. \<^verbatim>\<open>shape_t::name\<close> and
  \<^verbatim>\<open>material_t::name\<close> are \<open>shape_name\<close> and \<open>mat_name\<close> here. Per-face vertex counts are
  unsigned in the library.
\<close>

record attrib_t =
  vertices :: "real list"
  texcoords :: "real list"

record index_t =
  vertex_index :: int
  normal_index :: int
  texcoord_index :: int

record mesh_t =
  indices :: "index_t list"
  num_face_vertices :: "nat list"
  material_ids :: "int list"

record shape_t =
  shape_name :: string
  mesh :: mesh_t

record material_t =
  mat_name :: string
  diffuse :: vec3
  dissolve :: real
  diffuse_texname :: string

text \<open>What \<^verbatim>\<open>tinyobj::LoadObj\<close> returns and writes through its out parameters.\<close>

record loadobj =
  ret :: bool
  attrib :: attrib_t
  shapes :: "shape_t list"
  materials :: "material_t list"
  warn :: string
  err :: string

text \<open>
  The answers of the collaborators: the decoder and the parser as functions of the file
  names (the files do not change while the program loads), and the object name the GL
  driver writes on its \<open>k\<close>-th \<^verbatim>\<open>glGen*\<close> call.
\<close>

record env =
  stbi_load :: "string \<Rightarrow> image option"
  LoadObj :: "string \<Rightarrow> string \<Rightarrow> loadobj"
  glGen :: "nat \<Rightarrow> GLuint"

text \<open>The functions of glm that \<^verbatim>\<open>main\<close> calls, and \<^verbatim>\<open>operator*\<close> on \<^verbatim>\<open>mat4\<close>.\<close>

record 'm glm =
  glm_mat4_1 :: 'm
  glm_translate :: "'m \<Rightarrow> vec3 \<Rightarrow> 'm"
  glm_rotate :: "'m \<Rightarrow> real \<Rightarrow> vec3 \<Rightarrow> 'm"
  glm_lookAt :: "vec3 \<Rightarrow> vec3 \<Rightarrow> vec3 \<Rightarrow> 'm"
  glm_perspective :: "real \<Rightarrow> real \<Rightarrow> real \<Rightarrow> real \<Rightarrow> 'm"
  glm_radians :: "real \<Rightarrow> real"
  glm_mul :: "'m \<Rightarrow> 'm \<Rightarrow> 'm"

text \<open>The uniform locations \<^verbatim>\<open>main\<close> looks up once.\<close>

record locs =
  locMVP :: GLint
  locUT :: GLint
  locBC :: GLint
  locOp :: GLint

text \<open>
  \<^verbatim>\<open>exit(1)\<close> after a message on stderr, and undefined behaviour: a \<^verbatim>\<open>std::vector\<close>
  read outside its bounds, or an \<^verbatim>\<open>int\<close> index computation that overflows.
\<close>

datatype error = Exit string int | Undefined

definition vec_at :: "'a list \<Rightarrow> int \<Rightarrow> error + 'a" where
  "vec_at xs i =
     (if 0 \<le> i \<and> i \<le> 2147483647 \<and> nat i < length xs then Inr (xs ! nat i) else Inl Undefined)"

subsection \<open>Texture cache\<close>

definition loadTex :: "env \<Rightarrow> string \<Rightarrow> 'm state \<Rightarrow> GLuint \<times> 'm state" where
  "loadTex E f s =
     (case texCache s f of
        Some t \<Rightarrow> (t, s)
      | None \<Rightarrow>
          (case stbi_load E f of
             None \<Rightarrow> (0, emit [StbiLoad f, FprintfStderr (''Failed to load '' @ f @ [CHR 0x0A])] s)
           | Some d \<Rightarrow>
               (let fmt = (if img_n d = 3 then GL_RGB else GL_RGBA);
                    t = glGen E (gens s);
                    s1 = emit [StbiLoad f, GenTextures t, BindTexture GL_TEXTURE_2D t,
                               TexImage2D GL_TEXTURE_2D 0 fmt (img_w d) (img_h d) 0 fmt
                                 GL_UNSIGNED_BYTE (img_d d),
                               TexParameteri GL_TEXTURE_2D GL_TEXTURE_MIN_FILTER GL_LINEAR,
                               TexParameteri GL_TEXTURE_2D GL_TEXTURE_MAG_FILTER GL_LINEAR,
                               StbiImageFree] s
                in (t, s1\<lparr>gens := Suc (gens s), texCache := (texCache s)(f \<mapsto> t)\<rparr>))))"

text \<open>A run of calls of \<^verbatim>\<open>loadTex\<close>, one per path of the list, in order.\<close>

fun loadTex_seq :: "env \<Rightarrow> string list \<Rightarrow> 'm state \<Rightarrow> 'm state" where
  "loadTex_seq E [] s = s"
| "loadTex_seq E (f # fs) s = loadTex_seq E fs (snd (loadTex E f s))"

text \<open>What a trace shows: the uploads, and the decode attempts on one path.\<close>

fun is_upload :: "'m call \<Rightarrow> bool" where
  "is_upload (TexImage2D _ _ _ _ _ _ _ _ _) = True"
| "is_upload _ = False"

definition uploads :: "'m call list \<Rightarrow> nat" where
  "uploads cs = length (filter is_upload cs)"

definition decodes :: "string \<Rightarrow> 'm call list \<Rightarrow> nat" where
  "decodes f cs = count_list cs (StbiLoad f)"

subsection \<open>Importer\<close>

text \<open>
  The body of the loop over the vertices of a face, for the index at \<open>off + v\<close>. Line 145
  subtracts two floats: \<^verbatim>\<open>1.0f - A.texcoords[...]\<close>.
\<close>

definition push_vertex ::
  "attrib_t \<Rightarrow> index_t list \<Rightarrow> nat \<Rightarrow> real list \<times> real list \<Rightarrow> error + (real list \<times> real list)"
where
  "push_vertex A I k PU =
     (case vec_at I (int k) of
        Inl e \<Rightarrow> Inl e
      | Inr idx \<Rightarrow>
     (case vec_at (vertices A) (3 * vertex_index idx + 0) of
        Inl e \<Rightarrow> Inl e
      | Inr x \<Rightarrow>
     (case vec_at (vertices A) (3 * vertex_index idx + 1) of
        Inl e \<Rightarrow> Inl e
      | Inr y \<Rightarrow>
     (case vec_at (vertices A) (3 * vertex_index idx + 2) of
        Inl e \<Rightarrow> Inl e
      | Inr z \<Rightarrow>
          if texcoord_index idx \<ge> 0 then
            (case vec_at (texcoords A) (2 * texcoord_index idx + 0) of
               Inl e \<Rightarrow> Inl e
             | Inr u \<Rightarrow>
            (case vec_at (texcoords A) (2 * texcoord_index idx + 1) of
               Inl e \<Rightarrow> Inl e
             | Inr t \<Rightarrow> Inr (fst PU @ [x, y, z], snd PU @ [u, f32 (1 - t)])))
          else Inr (fst PU @ [x, y, z], snd PU @ [0, 0])))))"

function vertex_loop ::
  "attrib_t \<Rightarrow> index_t list \<Rightarrow> nat \<Rightarrow> nat \<Rightarrow> nat \<Rightarrow> real list \<times> real list
     \<Rightarrow> error + (real list \<times> real list)"
where
  "vertex_loop A I off fv v PU =
     (if v < fv then
        (case push_vertex A I (off + v) PU of
           Inl e \<Rightarrow> Inl e
         | Inr PU' \<Rightarrow> vertex_loop A I off fv (Suc v) PU')
      else Inr PU)"
  by pat_completeness auto
termination
  by (relation "measure (\<lambda>(A, I, off, fv, v, PU). fv - v)") auto

declare vertex_loop.simps [simp del]

fun face_loop ::
  "attrib_t \<Rightarrow> index_t list \<Rightarrow> nat list \<Rightarrow> nat \<Rightarrow> real list \<times> real list
     \<Rightarrow> error + (real list \<times> real list)"
where
  "face_loop A I [] off PU = Inr PU"
| "face_loop A I (fv # fvs) off PU =
     (case vertex_loop A I off fv 0 PU of
        Inl e \<Rightarrow> Inl e
      | Inr PU' \<Rightarrow> face_loop A I fvs (off + fv) PU')"

text \<open>
  Lines 126 to 132: the material's attributes, and the texture when the material names
  one.
\<close>

definition apply_material ::
  "env \<Rightarrow> material_t \<Rightarrow> Mesh \<Rightarrow> 'm state \<Rightarrow> Mesh \<times> 'm state" where
  "apply_material E mat m s =
     (let m1 = m\<lparr>kd := diffuse mat, opacity := dissolve mat,
                 transparent := (dissolve mat < opaque_limit)\<rparr>
      in if diffuse_texname mat \<noteq> [] then
           (case loadTex E (diffuse_texname mat) s of
              (t, s') \<Rightarrow> (m1\<lparr>tex := t, hasTex := True\<rparr>, s'))
         else (m1, s))"

text \<open>Lines 153 to 166: the vertex array and the two buffers of a mesh.\<close>

definition upload_mesh ::
  "env \<Rightarrow> Mesh \<Rightarrow> real list \<Rightarrow> real list \<Rightarrow> 'm state \<Rightarrow> 'm state" where
  "upload_mesh E m P UV s =
     (let va = glGen E (gens s); vp = glGen E (gens s + 1); vu = glGen E (gens s + 2);
          s1 = emit [GenVertexArrays va, BindVertexArray va,
                     GenBuffers vp, BindBuffer GL_ARRAY_BUFFER vp,
                     BufferData GL_ARRAY_BUFFER (length P * 4) P GL_STATIC_DRAW,
                     EnableVertexAttribArray 0, VertexAttribPointer 0 3 GL_FLOAT False 0 0,
                     GenBuffers vu, BindBuffer GL_ARRAY_BUFFER vu,
                     BufferData GL_ARRAY_BUFFER (length UV * 4) UV GL_STATIC_DRAW,
                     EnableVertexAttribArray 2, VertexAttribPointer 2 2 GL_FLOAT False 0 0,
                     BindVertexArray 0] s
      in s1\<lparr>gens := gens s + 3,
             meshes := meshes s @ [m\<lparr>vao := va, vboPos := vp, vboUV := vu\<rparr>]\<rparr>)"

text \<open>Line 114: the material index of the first face, or \<open>-1\<close>.\<close>

definition first_mid :: "shape_t \<Rightarrow> int" where
  "first_mid shape =
     (if material_ids (mesh shape) = [] then - 1 else material_ids (mesh shape) ! 0)"

text \<open>Line 115: the name of that material, or the empty string.\<close>

definition matName_of :: "material_t list \<Rightarrow> int \<Rightarrow> error + string" where
  "matName_of M mid =
     (if mid \<ge> 0 then (case vec_at M mid of Inl e \<Rightarrow> Inl e | Inr mat \<Rightarrow> Inr (mat_name mat))
      else Inr [])"

text \<open>Line 117: the test that skips a shape.\<close>

definition skip_water :: "shape_t \<Rightarrow> string \<Rightarrow> bool" where
  "skip_water shape matName = (shape_name shape = ''Water'' \<or> matName = ''water'')"

text \<open>Lines 118 to 133: the mesh with its defaults, then the material when there is one.\<close>

definition new_mesh :: Mesh where
  "new_mesh = \<lparr>vao = 0, vboPos = 0, vboUV = 0, tex = 0, hasTex = False, kd = (1, 1, 1),
     verts = 0, transparent = False, opacity = 1\<rparr>"

definition material_mesh ::
  "env \<Rightarrow> material_t list \<Rightarrow> int \<Rightarrow> 'm state \<Rightarrow> error + (Mesh \<times> 'm state)" where
  "material_mesh E M mid s =
     (if mid \<ge> 0 then
        (case vec_at M mid of Inl e \<Rightarrow> Inl e | Inr mat \<Rightarrow> Inr (apply_material E mat new_mesh s))
      else Inr (new_mesh, s))"

text \<open>The body of the loop over the shapes.\<close>

definition loadShape ::
  "env \<Rightarrow> attrib_t \<Rightarrow> material_t list \<Rightarrow> shape_t \<Rightarrow> 'm state \<Rightarrow> error + 'm state" where
  "loadShape E A M shape s =
     (case matName_of M (first_mid shape) of
        Inl e \<Rightarrow> Inl e
      | Inr matName \<Rightarrow>
          if skip_water shape matName then Inr s
          else
            (case material_mesh E M (first_mid shape) s of
               Inl e \<Rightarrow> Inl e
             | Inr (m1, s1) \<Rightarrow>
                 (case face_loop A (indices (mesh shape)) (num_face_vertices (mesh shape)) 0
                         ([], []) of
                    Inl e \<Rightarrow> Inl e
                  | Inr (P, UV) \<Rightarrow>
                      Inr (upload_mesh E (m1\<lparr>verts := of_nat (length P div 3)\<rparr>) P UV s1))))"

fun shape_loop ::
  "env \<Rightarrow> attrib_t \<Rightarrow> material_t list \<Rightarrow> shape_t list \<Rightarrow> 'm state \<Rightarrow> error + 'm state" where
  "shape_loop E A M [] s = Inr s"
| "shape_loop E A M (shape # S) s =
     (case loadShape E A M shape s of
        Inl e \<Rightarrow> Inl e
      | Inr s' \<Rightarrow> shape_loop E A M S s')"

definition loadOBJ :: "env \<Rightarrow> string \<Rightarrow> string \<Rightarrow> 'm state \<Rightarrow> error + 'm state" where
  "loadOBJ E file base s =
     (let r = LoadObj E file base in
      if \<not> ret r then Inl (Exit (warn r @ '' '' @ err r @ [CHR 0x0A]) 1)
      else shape_loop E (attrib r) (materials r) (shapes r) s)"

subsection \<open>Render pipeline\<close>

definition drawMesh_calls :: "Mesh \<Rightarrow> GLint \<Rightarrow> GLint \<Rightarrow> GLint \<Rightarrow> 'm call list" where
  "drawMesh_calls m lUT lBC lOp =
     [Uniform1i lUT (if hasTex m then 1 else 0), Uniform3fv lBC 1 (kd m), Uniform1f lOp (opacity m)]
     @ (if hasTex m then [ActiveTexture GL_TEXTURE0, BindTexture GL_TEXTURE_2D (tex m)] else [])
     @ [BindVertexArray (vao m), DrawArrays GL_TRIANGLES 0 (verts m)]"

definition drawMesh :: "Mesh \<Rightarrow> GLint \<Rightarrow> GLint \<Rightarrow> GLint \<Rightarrow> 'm state \<Rightarrow> 'm state" where
  "drawMesh m lUT lBC lOp s = emit (drawMesh_calls m lUT lBC lOp) s"

text \<open>The two loops over \<^verbatim>\<open>meshes\<close> on lines 225 and 227.\<close>

fun draw_opaque :: "Mesh list \<Rightarrow> locs \<Rightarrow> 'm state \<Rightarrow> 'm state" where
  "draw_opaque [] L s = s"
| "draw_opaque (m # ms) L s =
     draw_opaque ms L (if \<not> transparent m then drawMesh m (locUT L) (locBC L) (locOp L) s else s)"

fun draw_transparent :: "Mesh list \<Rightarrow> locs \<Rightarrow> 'm state \<Rightarrow> 'm state" where
  "draw_transparent [] L s = s"
| "draw_transparent (m # ms) L s =
     draw_transparent ms L (if transparent m then drawMesh m (locUT L) (locBC L) (locOp L) s else s)"

text \<open>
  The float literals of \<^verbatim>\<open>main\<close> that are not floats themselves, \<^verbatim>\<open>10.52905f\<close> and \<^verbatim>\<open>0.1f\<close>,
  are the floats nearest to them.
\<close>

definition center :: vec3 where
  "center = (0, 0, f32 10.52905)"

definition neg3 :: "vec3 \<Rightarrow> vec3" where
  "neg3 p = (case p of (x, y, z) \<Rightarrow> (- x, - y, - z))"

text \<open>\<^verbatim>\<open>Model\<close> and \<^verbatim>\<open>MVP\<close> of lines 218 to 222, for given angles and aspect ratio.\<close>

definition model_matrix :: "'m glm \<Rightarrow> real \<Rightarrow> real \<Rightarrow> 'm" where
  "model_matrix G a b =
     glm_mul G
       (glm_mul G (glm_translate G (glm_mat4_1 G) (neg3 center))
                  (glm_rotate G (glm_mat4_1 G) a (1, 0, 0)))
       (glm_rotate G (glm_mat4_1 G) b (0, 1, 0))"

definition mvp_matrix :: "'m glm \<Rightarrow> real \<Rightarrow> real \<Rightarrow> real \<Rightarrow> 'm" where
  "mvp_matrix G asp a b =
     (let V = glm_lookAt G (0, 0, 40) (0, 0, 0) (0, 1, 0);
          P = glm_perspective G (glm_radians G 60) asp (f32 0.1) 200;
          M = model_matrix G a b
      in glm_mul G (glm_mul G P V) M)"

text \<open>
  One turn of the loop of \<^verbatim>\<open>main\<close>: \<open>cur\<close> is what \<^verbatim>\<open>glfwGetTime\<close> returns, \<open>prev\<close> the
  local of \<^verbatim>\<open>main\<close>, whose new value is returned with the state. Both are doubles:
  line 215 subtracts them as doubles and converts the difference to \<^verbatim>\<open>float\<close>; line 216
  multiplies and adds floats. \<^verbatim>\<open>glClear\<close> is called
  with both buffer bits. The callbacks that \<^verbatim>\<open>glfwPollEvents\<close> runs write \<^verbatim>\<open>sx\<close>, \<^verbatim>\<open>sy\<close>
  and \<^verbatim>\<open>aspect\<close> only; they are not part of the turn.
\<close>

definition frame :: "'m glm \<Rightarrow> locs \<Rightarrow> real \<Rightarrow> real \<Rightarrow> 'm state \<Rightarrow> real \<times> 'm state" where
  "frame G L cur prev s =
     (let dt = f32 (f64 (cur - prev));
          s1 = s\<lparr>ax := f32 (ax s + f32 (sx s * dt)), ay := f32 (ay s + f32 (sy s * dt))\<rparr>;
          MVP = mvp_matrix G (aspect s1) (ax s1) (ay s1);
          s2 = emit [Clear, UniformMatrix4fv (locMVP L) 1 False MVP] s1;
          s3 = draw_opaque (meshes s2) L s2;
          s4 = emit [DepthMask False] s3;
          s5 = draw_transparent (meshes s4) L s4;
          s6 = emit [DepthMask True, SwapBuffers, PollEvents] s5
      in (cur, s6))"

text \<open>
  What the device does with a trace: every \<^verbatim>\<open>glDrawArrays\<close> draws the bound vertex
  array with the depth mask as last set. \<open>draws d v cs\<close> lists, for the calls \<open>cs\<close> made
  with depth mask \<open>d\<close> and vertex array \<open>v\<close> bound, the vertex array, the vertex count
  and the depth mask of each draw; \<open>depth_mask_after\<close> is the mask the calls leave.
\<close>

fun draws :: "bool \<Rightarrow> GLuint \<Rightarrow> 'm call list \<Rightarrow> (GLuint \<times> GLsizei \<times> bool) list" where
  "draws d v [] = []"
| "draws d v (DepthMask b # cs) = draws b v cs"
| "draws d v (BindVertexArray a # cs) = draws d a cs"
| "draws d v (DrawArrays mode first n # cs) = (v, n, d) # draws d v cs"
| "draws d v (c # cs) = draws d v cs"

fun depth_mask_after :: "bool \<Rightarrow> 'm call list \<Rightarrow> bool" where
  "depth_mask_after d [] = d"
| "depth_mask_after d (DepthMask b # cs) = depth_mask_after b cs"
| "depth_mask_after d (c # cs) = depth_mask_after d cs"



text \<open>
  The calls one turn of the loop adds to the trace, and the calls of \<^verbatim>\<open>drawMesh\<close> for
  the meshes of a list, one after the other.
\<close>

definition frame_calls_of :: "'m glm \<Rightarrow> locs \<Rightarrow> real \<Rightarrow> real \<Rightarrow> 'm state \<Rightarrow> 'm call list" where
  "frame_calls_of G L cur prev s = drop (length (calls s)) (calls (snd (frame G L cur prev s)))"

definition pass_calls :: "locs \<Rightarrow> Mesh list \<Rightarrow> 'm call list" where
  "pass_calls L ms = concat (map (\<lambda>m. drawMesh_calls m (locUT L) (locBC L) (locOp L)) ms)"

subsection \<open>What the importer is expected to store\<close>

text \<open>
  The data model of the specification, per expanded vertex: the three coordinates of the
  position the vertex refers to, and its texture coordinate with \<open>v\<close> flipped (in float
  arithmetic), or \<open>(0, 0)\<close> when the vertex has none.
\<close>

definition vertex_pos :: "attrib_t \<Rightarrow> index_t \<Rightarrow> real list" where
  "vertex_pos A idx =
     [vertices A ! nat (3 * vertex_index idx), vertices A ! nat (3 * vertex_index idx + 1),
      vertices A ! nat (3 * vertex_index idx + 2)]"

definition vertex_uv :: "attrib_t \<Rightarrow> index_t \<Rightarrow> real list" where
  "vertex_uv A idx =
     (if texcoord_index idx \<ge> 0 then
        [texcoords A ! nat (2 * texcoord_index idx),
         f32 (1 - texcoords A ! nat (2 * texcoord_index idx + 1))]
      else [0, 0])"

text \<open>
  The material of a shape in the words of the specification: the one at the material
  index of the first face, none when the shape has no face or the index is negative. A
  shape is named water when its name is \<^verbatim>\<open>Water\<close> or that material is named \<^verbatim>\<open>water\<close>.
\<close>

definition first_face_material :: "material_t list \<Rightarrow> shape_t \<Rightarrow> material_t option" where
  "first_face_material M sh =
     (case material_ids (mesh sh) of
        [] \<Rightarrow> None
      | i # rest \<Rightarrow> if 0 \<le> i then Some (M ! nat i) else None)"

definition named_water :: "material_t list \<Rightarrow> shape_t \<Rightarrow> bool" where
  "named_water M sh =
     (shape_name sh = ''Water'' \<or>
      (case first_face_material M sh of Some mat \<Rightarrow> mat_name mat = ''water'' | None \<Rightarrow> False))"

text \<open>
  A DrawUnit of a shape: it has as many vertices as the faces of the shape together, and
  the base color and opacity of the material of the shape, or white and 1.
\<close>

definition drawunit_of :: "material_t list \<Rightarrow> shape_t \<Rightarrow> Mesh \<Rightarrow> bool" where
  "drawunit_of M sh m =
     (verts m = of_nat (sum_list (num_face_vertices (mesh sh))) \<and>
      (case first_face_material M sh of
         Some mat \<Rightarrow> kd m = diffuse mat \<and> opacity m = dissolve mat
       | None \<Rightarrow> kd m = (1, 1, 1) \<and> opacity m = 1))"


text \<open>What the frame loop relies on: the flag of a mesh agrees with its opacity.\<close>

definition mesh_ok :: "Mesh \<Rightarrow> bool" where
  "mesh_ok m = (transparent m = (opacity m < opaque_limit))"

text \<open>
  What the texture cache keeps true of the trace: there are as many uploads in it as there
  are paths in the cache.
\<close>

definition cache_counts :: "'m state \<Rightarrow> bool" where
  "cache_counts s = (finite (dom (texCache s)) \<and> uploads (calls s) = card (dom (texCache s)))"

subsection \<open>Example inputs\<close>

text \<open>
  A small attribute pool, materials and shapes, and an environment in which only
  \<^verbatim>\<open>glass.png\<close> decodes. The file \<^verbatim>\<open>aquarium.obj\<close> holds a shape named \<^verbatim>\<open>Water\<close> and a
  textured, half transparent triangle named \<^verbatim>\<open>Glass\<close>; \<^verbatim>\<open>rock.obj\<close> holds two triangles
  whose material names a texture that does not decode.
\<close>

definition example_image :: image where
  "example_image = \<lparr>img_w = 2, img_h = 1, img_n = 3, img_d = [255, 0, 0, 0, 255, 0]\<rparr>"

definition example_attrib :: attrib_t where
  "example_attrib =
     \<lparr>vertices = [0, 0, 0, 1, 0, 0, 0, 1, 0, 1, 1, 0], texcoords = [0.5, 0.25]\<rparr>"

text \<open>
  The same pool with the texture coordinate \<open>v = 0.2f\<close>, the float nearest to 0.2.
\<close>

definition fifth_attrib :: attrib_t where
  "fifth_attrib =
     \<lparr>vertices = [0, 0, 0, 1, 0, 0, 0, 1, 0, 1, 1, 0],
      texcoords = [0.5, 13421773 / 67108864]\<rparr>"

definition example_materials :: "material_t list" where
  "example_materials =
     [\<lparr>mat_name = ''glass'', diffuse = (0.1, 0.2, 0.3), dissolve = 0.5,
       diffuse_texname = ''glass.png''\<rparr>,
      \<lparr>mat_name = ''rock'', diffuse = (0.4, 0.4, 0.4), dissolve = 0.999,
       diffuse_texname = ''missing.png''\<rparr>,
      \<lparr>mat_name = ''Water'', diffuse = (0, 0, 1), dissolve = 1, diffuse_texname = []\<rparr>]"

definition triangle :: "index_t list" where
  "triangle =
     [\<lparr>vertex_index = 0, normal_index = - 1, texcoord_index = 0\<rparr>,
      \<lparr>vertex_index = 1, normal_index = - 1, texcoord_index = - 1\<rparr>,
      \<lparr>vertex_index = 2, normal_index = - 1, texcoord_index = 0\<rparr>]"

definition water_shape :: shape_t where
  "water_shape = \<lparr>shape_name = ''Water'',
     mesh = \<lparr>indices = triangle, num_face_vertices = [3], material_ids = []\<rparr>\<rparr>"

definition glass_shape :: shape_t where
  "glass_shape = \<lparr>shape_name = ''Glass'',
     mesh = \<lparr>indices = triangle, num_face_vertices = [3], material_ids = [0]\<rparr>\<rparr>"

definition rock_shape :: shape_t where
  "rock_shape = \<lparr>shape_name = ''Rock'',
     mesh = \<lparr>indices = triangle, num_face_vertices = [3], material_ids = [1]\<rparr>\<rparr>"

text \<open>A shape named \<^verbatim>\<open>water\<close> in lower case, without material.\<close>

definition pond_shape :: shape_t where
  "pond_shape = \<lparr>shape_name = ''water'',
     mesh = \<lparr>indices = triangle, num_face_vertices = [3], material_ids = []\<rparr>\<rparr>"

text \<open>A shape whose material is named \<^verbatim>\<open>Water\<close> with a capital.\<close>

definition lake_shape :: shape_t where
  "lake_shape = \<lparr>shape_name = ''Lake'',
     mesh = \<lparr>indices = triangle, num_face_vertices = [3], material_ids = [2]\<rparr>\<rparr>"

text \<open>Two faces, the first of material 0 and the second of material 1.\<close>

definition mixed_shape :: shape_t where
  "mixed_shape = \<lparr>shape_name = ''Mixed'',
     mesh = \<lparr>indices = triangle @ triangle, num_face_vertices = [3, 3], material_ids = [0, 1]\<rparr>\<rparr>"

text \<open>Two faces, the first of material 1 and the second of material 0.\<close>

definition layered_shape :: shape_t where
  "layered_shape = \<lparr>shape_name = ''Layered'',
     mesh = \<lparr>indices = triangle @ triangle, num_face_vertices = [3, 3], material_ids = [1, 0]\<rparr>\<rparr>"

definition example_env :: env where
  "example_env =
     \<lparr>stbi_load = (\<lambda>f. if f = ''glass.png'' then Some example_image else None),
      LoadObj = (\<lambda>file base.
        \<lparr>ret = True, attrib = example_attrib,
         shapes = (if file = ''rock.obj'' then [rock_shape, rock_shape]
                   else [water_shape, glass_shape]),
         materials = example_materials, warn = [], err = []\<rparr>),
      glGen = (\<lambda>k. of_nat (Suc k))\<rparr>"

text \<open>
  A stand-in for glm on lists of reals, to run a frame: a matrix is the list of the
  numbers it was built from, and a product is the two lists joined.
\<close>

definition example_glm :: "real list glm" where
  "example_glm =
     \<lparr>glm_mat4_1 = [1],
      glm_translate = (\<lambda>m v. m @ [fst v, fst (snd v), snd (snd v)]),
      glm_rotate = (\<lambda>m a v. m @ [a, fst v, fst (snd v), snd (snd v)]),
      glm_lookAt = (\<lambda>e c u. [fst e, fst (snd e), snd (snd e)]),
      glm_perspective = (\<lambda>f a n r. [f, a, n, r]),
      glm_radians = (\<lambda>d. d),
      glm_mul = (\<lambda>a b. a @ b)\<rparr>"

definition example_locs :: locs where
  "example_locs = \<lparr>locMVP = 0, locUT = 1, locBC = 2, locOp = 3\<rparr>"

section \<open>Properties\<close>

subsection \<open>Rounding\<close>


lemma pow2_powr: "pow2 e = 2 powr (of_int e)"
proof (cases "0 \<le> e")
  case True
  then have "2 powr (of_int e) = (2 :: real) powr (real (nat e))" by simp
  also have "\<dots> = 2 ^ nat e" by (simp add: powr_realpow)
  finally show ?thesis using True by (simp add: pow2_def)
next
  case False
  then have "2 powr (of_int e) = (2 :: real) powr (- real (nat (- e)))" by simp
  also have "\<dots> = 1 / 2 ^ nat (- e)" by (simp add: powr_minus powr_realpow divide_inverse)
  finally show ?thesis using False by (simp add: pow2_def)
qed


lemma pow2_add: "pow2 (a + b) = pow2 a * pow2 b"
  by (simp add: pow2_powr powr_add)

lemma pow2_mono: "a \<le> b \<Longrightarrow> pow2 a \<le> pow2 b"
  by (simp add: pow2_powr)










subsection \<open>Texture cache\<close>

lemma emit_fields [simp]:
  "meshes (emit cs s) = meshes s" "texCache (emit cs s) = texCache s"
  "gens (emit cs s) = gens s" "calls (emit cs s) = calls s @ cs"
  "ax (emit cs s) = ax s" "ay (emit cs s) = ay s" "sx (emit cs s) = sx s" "sy (emit cs s) = sy s"
  "aspect (emit cs s) = aspect s"
  by (simp_all add: emit_def)

lemma loadTex_cached: "texCache s f = Some t \<Longrightarrow> loadTex E f s = (t, s)"
  by (simp add: loadTex_def)

lemma loadTex_failed:
  "texCache s f = None \<Longrightarrow> stbi_load E f = None \<Longrightarrow>
   loadTex E f s = (0, emit [StbiLoad f, FprintfStderr (''Failed to load '' @ f @ [CHR 0x0A])] s)"
  by (simp add: loadTex_def)

lemma loadTex_decoded:
  "texCache s f = None \<Longrightarrow> stbi_load E f = Some d \<Longrightarrow>
   fst (loadTex E f s) = glGen E (gens s) \<and>
   texCache (snd (loadTex E f s)) = (texCache s)(f \<mapsto> glGen E (gens s)) \<and>
   gens (snd (loadTex E f s)) = Suc (gens s) \<and>
   meshes (snd (loadTex E f s)) = meshes s \<and>
   uploads (calls (snd (loadTex E f s))) = Suc (uploads (calls s)) \<and>
   decodes g (calls (snd (loadTex E f s))) = decodes g (calls s) + (if g = f then 1 else 0)"
  by (simp add: loadTex_def Let_def uploads_def decodes_def)

lemma loadTex_same_handle: "fst (loadTex E f (snd (loadTex E f s))) = fst (loadTex E f s)"
proof (cases "texCache s f")
  case (Some t)
  then show ?thesis by (simp add: loadTex_cached)
next
  case None
  show ?thesis
  proof (cases "stbi_load E f")
    case dn: None
    with None show ?thesis by (simp add: loadTex_failed)
  next
    case (Some d)
    with None have "texCache (snd (loadTex E f s)) f = Some (fst (loadTex E f s))"
      by (simp add: loadTex_decoded)
    then show ?thesis by (simp add: loadTex_cached)
  qed
qed

lemma loadTex_second_noop:
  assumes "stbi_load E f \<noteq> None"
  shows "snd (loadTex E f (snd (loadTex E f s))) = snd (loadTex E f s)"
proof (cases "texCache s f")
  case (Some t)
  then show ?thesis by (simp add: loadTex_cached)
next
  case None
  from assms obtain d where d: "stbi_load E f = Some d" by auto
  with None have "texCache (snd (loadTex E f s)) f = Some (fst (loadTex E f s))"
    by (simp add: loadTex_decoded)
  then show ?thesis by (simp add: loadTex_cached)
qed

lemma loadTex_seq_uploads:
  "uploads (calls (loadTex_seq E fs s)) =
   uploads (calls s) + card {f \<in> set fs. texCache s f = None \<and> stbi_load E f \<noteq> None}"
proof (induction fs arbitrary: s)
  case Nil
  then show ?case by simp
next
  case (Cons f fs)
  let ?s' = "snd (loadTex E f s)"
  let ?A = "\<lambda>s. {g \<in> set fs. texCache s g = None \<and> stbi_load E g \<noteq> None}"
  have IH: "uploads (calls (loadTex_seq E fs ?s')) = uploads (calls ?s') + card (?A ?s')"
    by (rule Cons.IH)
  show ?case
  proof (cases "texCache s f")
    case (Some t)
    then have s': "?s' = s" by (simp add: loadTex_cached)
    from Some have "{g \<in> set (f # fs). texCache s g = None \<and> stbi_load E g \<noteq> None} = ?A s"
      by auto
    with IH s' show ?thesis by simp
  next
    case None
    show ?thesis
    proof (cases "stbi_load E f")
      case dn: None
      with None have s': "?s' = emit [StbiLoad f, FprintfStderr (''Failed to load '' @ f @ [CHR 0x0A])] s"
        by (simp add: loadTex_failed)
      from dn have "{g \<in> set (f # fs). texCache s g = None \<and> stbi_load E g \<noteq> None} = ?A s"
        by auto
      moreover have "?A ?s' = ?A s" by (simp add: s')
      moreover have "uploads (calls ?s') = uploads (calls s)" by (simp add: s' uploads_def)
      ultimately show ?thesis using IH by simp
    next
      case (Some d)
      with None have up: "uploads (calls ?s') = Suc (uploads (calls s))"
        and tc: "texCache ?s' = (texCache s)(f \<mapsto> glGen E (gens s))"
        by (simp_all add: loadTex_decoded)
      have A': "?A ?s' = ?A s - {f}" by (auto simp: tc)
      have eq: "{g \<in> set (f # fs). texCache s g = None \<and> stbi_load E g \<noteq> None} = insert f (?A s - {f})"
        using None Some by auto
      have "card (insert f (?A s - {f})) = Suc (card (?A s - {f}))"
        by (rule card_insert_disjoint) simp_all
      then have "card {g \<in> set (f # fs). texCache s g = None \<and> stbi_load E g \<noteq> None} = Suc (card (?A s - {f}))"
        by (simp only: eq)
      with IH up A' show ?thesis by simp
    qed
  qed
qed

lemma loadTex_seq_decodes_ok:
  assumes "stbi_load E p \<noteq> None"
  shows "decodes p (calls (loadTex_seq E fs s)) =
         decodes p (calls s) + (if texCache s p = None \<and> p \<in> set fs then 1 else 0)"
  using assms
proof (induction fs arbitrary: s)
  case Nil
  then show ?case by simp
next
  case (Cons f fs)
  let ?s' = "snd (loadTex E f s)"
  have IH: "decodes p (calls (loadTex_seq E fs ?s')) =
         decodes p (calls ?s') + (if texCache ?s' p = None \<and> p \<in> set fs then 1 else 0)"
    using Cons.IH Cons.prems by simp
  show ?case
  proof (cases "texCache s f")
    case (Some t)
    then have s': "?s' = s" by (simp add: loadTex_cached)
    with IH Some show ?thesis by auto
  next
    case None
    show ?thesis
    proof (cases "stbi_load E f")
      case dn: None
      with None have s': "?s' = emit [StbiLoad f, FprintfStderr (''Failed to load '' @ f @ [CHR 0x0A])] s"
        by (simp add: loadTex_failed)
      from dn Cons.prems have "f \<noteq> p" by auto
      with IH show ?thesis by (simp add: s' decodes_def)
    next
      case (Some d)
      with None have dc: "decodes p (calls ?s') = decodes p (calls s) + (if p = f then 1 else 0)"
        and tc: "texCache ?s' = (texCache s)(f \<mapsto> glGen E (gens s))"
        by (simp_all add: loadTex_decoded)
      with IH None show ?thesis by (auto simp: tc)
    qed
  qed
qed

lemma loadTex_seq_failed:
  assumes "stbi_load E p = None" "texCache s p = None"
  shows "decodes p (calls (loadTex_seq E (replicate n p) s)) = decodes p (calls s) + n
       \<and> texCache (loadTex_seq E (replicate n p) s) = texCache s
       \<and> uploads (calls (loadTex_seq E (replicate n p) s)) = uploads (calls s)"
  using assms
proof (induction n arbitrary: s)
  case 0
  then show ?case by simp
next
  case (Suc n)
  then have s': "snd (loadTex E p s) = emit [StbiLoad p, FprintfStderr (''Failed to load '' @ p @ [CHR 0x0A])] s"
    by (simp add: loadTex_failed)
  from Suc.prems have "decodes p (calls (loadTex_seq E (replicate n p) (snd (loadTex E p s)))) = decodes p (calls (snd (loadTex E p s))) + n
     \<and> texCache (loadTex_seq E (replicate n p) (snd (loadTex E p s))) = texCache (snd (loadTex E p s))
     \<and> uploads (calls (loadTex_seq E (replicate n p) (snd (loadTex E p s)))) = uploads (calls (snd (loadTex E p s)))"
    by (intro Suc.IH) (simp_all add: s')
  then show ?case by (simp add: s' decodes_def uploads_def)
qed

subsection \<open>Face expansion\<close>

lemma vec_at_Inr: "vec_at xs i = Inr x \<Longrightarrow> 0 \<le> i \<and> nat i < length xs \<and> x = xs ! nat i"
  by (auto simp: vec_at_def split: if_splits)

lemma push_vertex_Inr:
  assumes "push_vertex A I k PU = Inr PU'"
  shows "k < length I \<and> fst PU' = fst PU @ vertex_pos A (I ! k) \<and> snd PU' = snd PU @ vertex_uv A (I ! k)"
  using assms
  by (auto simp: push_vertex_def vertex_pos_def vertex_uv_def split: sum.splits if_splits
           dest!: vec_at_Inr)

lemma vertex_loop_Inr:
  "vertex_loop A I off fv v PU = Inr PU' \<Longrightarrow>
   fst PU' = fst PU @ concat (map (vertex_pos A) (take (fv - v) (drop (off + v) I))) \<and>
   snd PU' = snd PU @ concat (map (vertex_uv A) (take (fv - v) (drop (off + v) I))) \<and>
   (v < fv \<longrightarrow> off + fv \<le> length I)"
proof (induction A I off fv v PU rule: vertex_loop.induct)
  case (1 A I off fv v PU)
  show ?case
  proof (cases "v < fv")
    case False
    with "1.prems" show ?thesis by (simp add: vertex_loop.simps)
  next
    case True
    with "1.prems" obtain PU1 where p: "push_vertex A I (off + v) PU = Inr PU1"
      and r: "vertex_loop A I off fv (Suc v) PU1 = Inr PU'"
      by (auto simp: vertex_loop.simps [of A I off fv v] split: sum.splits)
    from push_vertex_Inr [OF p] have k: "off + v < length I"
      and f1: "fst PU1 = fst PU @ vertex_pos A (I ! (off + v))"
      and s1: "snd PU1 = snd PU @ vertex_uv A (I ! (off + v))" by auto
    from "1.IH" [OF True p r] have
      f2: "fst PU' = fst PU1 @ concat (map (vertex_pos A) (take (fv - Suc v) (drop (off + Suc v) I)))"
      and s2: "snd PU' = snd PU1 @ concat (map (vertex_uv A) (take (fv - Suc v) (drop (off + Suc v) I)))"
      and b2: "Suc v < fv \<longrightarrow> off + fv \<le> length I" by auto
    from True obtain n where n: "fv - v = Suc n" "fv - Suc v = n"
      by (cases "fv - v") auto
    from k have d: "drop (off + v) I = I ! (off + v) # drop (off + Suc v) I"
      by (simp add: Cons_nth_drop_Suc)
    have b: "off + fv \<le> length I"
    proof (cases "Suc v < fv")
      case True with b2 show ?thesis by simp
    next
      case False with \<open>v < fv\<close> have "fv = Suc v" by simp
      with k show ?thesis by simp
    qed
    from f1 f2 s1 s2 b show ?thesis by (simp add: n d)
  qed
qed

lemma face_loop_Inr:
  "face_loop A I fvs off PU = Inr PU' \<Longrightarrow>
   fst PU' = fst PU @ concat (map (vertex_pos A) (take (sum_list fvs) (drop off I))) \<and>
   snd PU' = snd PU @ concat (map (vertex_uv A) (take (sum_list fvs) (drop off I))) \<and>
   (0 < sum_list fvs \<longrightarrow> off + sum_list fvs \<le> length I)"
proof (induction fvs arbitrary: off PU)
  case Nil
  then show ?case by simp
next
  case (Cons fv fvs)
  from Cons.prems obtain PU1 where v: "vertex_loop A I off fv 0 PU = Inr PU1"
    and r: "face_loop A I fvs (off + fv) PU1 = Inr PU'"
    by (auto split: sum.splits)
  from vertex_loop_Inr [OF v] have
    f1: "fst PU1 = fst PU @ concat (map (vertex_pos A) (take fv (drop off I)))"
    and s1: "snd PU1 = snd PU @ concat (map (vertex_uv A) (take fv (drop off I)))"
    and b1: "0 < fv \<longrightarrow> off + fv \<le> length I" by auto
  from Cons.IH [OF r] have
    f2: "fst PU' = fst PU1 @ concat (map (vertex_pos A) (take (sum_list fvs) (drop (off + fv) I)))"
    and s2: "snd PU' = snd PU1 @ concat (map (vertex_uv A) (take (sum_list fvs) (drop (off + fv) I)))"
    and b2: "0 < sum_list fvs \<longrightarrow> off + fv + sum_list fvs \<le> length I" by auto
  have t: "take (fv + sum_list fvs) (drop off I) =
           take fv (drop off I) @ take (sum_list fvs) (drop (off + fv) I)"
    by (simp add: take_add add.commute)
  from b1 b2 have b: "0 < fv + sum_list fvs \<longrightarrow> off + (fv + sum_list fvs) \<le> length I"
    by arith
  from f1 f2 s1 s2 b show ?case by (simp add: t del: sum_list_eq_0_iff)
qed

lemma length_vertex_pos [simp]: "length (vertex_pos A idx) = 3"
  by (simp add: vertex_pos_def)

lemma length_vertex_uv [simp]: "length (vertex_uv A idx) = 2"
  by (simp add: vertex_uv_def)

lemma length_concat_const:
  "(\<And>x. length (f x) = c) \<Longrightarrow> length (concat (map f xs)) = c * length xs"
  by (induction xs) auto


lemma face_loop_expanded:
  assumes "face_loop A I fvs 0 ([], []) = Inr (P, UV)"
  shows "P = concat (map (vertex_pos A) (take (sum_list fvs) I))"
    and "UV = concat (map (vertex_uv A) (take (sum_list fvs) I))"
    and "sum_list fvs \<le> length I"
proof -
  note r = face_loop_Inr [OF assms]
  from r [THEN conjunct1] show "P = concat (map (vertex_pos A) (take (sum_list fvs) I))" by simp
  from r [THEN conjunct2, THEN conjunct1]
  show "UV = concat (map (vertex_uv A) (take (sum_list fvs) I))" by simp
  from r [THEN conjunct2, THEN conjunct2] show "sum_list fvs \<le> length I" by arith
qed

lemma face_loop_lengths:
  assumes "face_loop A I fvs 0 ([], []) = Inr (P, UV)"
  shows "length P = 3 * sum_list fvs \<and> length UV = 2 * sum_list fvs"
  using face_loop_expanded [OF assms]
  by (simp add: length_concat_const [where c = 3] length_concat_const [where c = 2])


subsection \<open>Importer\<close>

lemma loadTex_meshes [simp]: "meshes (snd (loadTex E f s)) = meshes s"
  by (simp add: loadTex_def Let_def split: option.splits)

lemma apply_material_fst:
  "fst (apply_material E mat m s) =
     m\<lparr>kd := diffuse mat, opacity := dissolve mat, transparent := (dissolve mat < opaque_limit),
        tex := (if diffuse_texname mat \<noteq> [] then fst (loadTex E (diffuse_texname mat) s) else tex m),
        hasTex := (if diffuse_texname mat \<noteq> [] then True else hasTex m)\<rparr>"
  by (simp add: apply_material_def Let_def split: prod.splits)

lemma apply_material_snd:
  "snd (apply_material E mat m s) =
     (if diffuse_texname mat \<noteq> [] then snd (loadTex E (diffuse_texname mat) s) else s)"
  by (simp add: apply_material_def Let_def split: prod.splits)

lemma material_mesh_cases:
  assumes "material_mesh E M mid s = Inr (m1, s1)"
  obtains "mid < 0" "m1 = new_mesh" "s1 = s"
  | mat where "0 \<le> mid" "vec_at M mid = Inr mat"
      "m1 = fst (apply_material E mat new_mesh s)" "s1 = snd (apply_material E mat new_mesh s)"
proof (cases "0 \<le> mid")
  case False
  with assms that(1) show ?thesis by (simp add: material_mesh_def)
next
  case True
  with assms obtain mat where m: "vec_at M mid = Inr mat"
    and a: "apply_material E mat new_mesh s = (m1, s1)"
    by (auto simp: material_mesh_def split: sum.splits)
  from a have "m1 = fst (apply_material E mat new_mesh s)" "s1 = snd (apply_material E mat new_mesh s)"
    by simp_all
  with True m that(2) show ?thesis by blast
qed

lemma material_mesh_Inr:
  assumes "material_mesh E M mid s = Inr (m1, s1)"
  shows "meshes s1 = meshes s" and "transparent m1 = (opacity m1 < opaque_limit)"
  using assms
  by (cases rule: material_mesh_cases;
      simp add: apply_material_fst apply_material_snd new_mesh_def opaque_limit_def)+

lemma upload_mesh_meshes:
  "meshes (upload_mesh E m P UV s) =
     meshes s @ [m\<lparr>vao := glGen E (gens s), vboPos := glGen E (gens s + 1), vboUV := glGen E (gens s + 2)\<rparr>]"
  by (simp add: upload_mesh_def Let_def)

lemma loadShape_Inr:
  assumes "loadShape E A M sh s = Inr s'"
  obtains n where "matName_of M (first_mid sh) = Inr n" "skip_water sh n" "s' = s"
  | n m1 s1 P UV where "matName_of M (first_mid sh) = Inr n" "\<not> skip_water sh n"
      "material_mesh E M (first_mid sh) s = Inr (m1, s1)"
      "face_loop A (indices (mesh sh)) (num_face_vertices (mesh sh)) 0 ([], []) = Inr (P, UV)"
      "s' = upload_mesh E (m1\<lparr>verts := of_nat (length P div 3)\<rparr>) P UV s1"
  using assms
  by (auto simp: loadShape_def split: sum.splits if_splits prod.splits)

lemma loadShape_meshes:
  assumes "loadShape E A M sh s = Inr s'"
  shows "if shape_name sh = ''Water'' \<or> matName_of M (first_mid sh) = Inr ''water''
         then meshes s' = meshes s
         else meshes s' = meshes s @ [last (meshes s')]"
  using assms
proof (cases rule: loadShape_Inr)
  case (1 n)
  then show ?thesis by (auto simp: skip_water_def)
next
  case (2 n m1 s1 P UV)
  from material_mesh_Inr(1) [OF 2(3)] have "meshes s1 = meshes s" .
  with 2 show ?thesis by (auto simp: skip_water_def upload_mesh_meshes)
qed

lemma loadShape_last:
  assumes "loadShape E A M sh s = Inr s'"
    and "\<not> (shape_name sh = ''Water'' \<or> matName_of M (first_mid sh) = Inr ''water'')"
  obtains m1 s1 P UV where
      "material_mesh E M (first_mid sh) s = Inr (m1, s1)"
      "face_loop A (indices (mesh sh)) (num_face_vertices (mesh sh)) 0 ([], []) = Inr (P, UV)"
      "last (meshes s') = m1\<lparr>verts := of_nat (length P div 3), vao := glGen E (gens s1),
          vboPos := glGen E (gens s1 + 1), vboUV := glGen E (gens s1 + 2)\<rparr>"
  using assms(1)
proof (cases rule: loadShape_Inr)
  case (1 n)
  with assms(2) show ?thesis by (auto simp: skip_water_def)
next
  case (2 n m1 s1 P UV)
  then show ?thesis by (intro that [of m1 s1 P UV]) (auto simp: upload_mesh_meshes)
qed

lemma loadShape_mesh_ok:
  assumes "loadShape E A M sh s = Inr s'" and "list_all mesh_ok (meshes s)"
  shows "list_all mesh_ok (meshes s')"
  using assms(1)
proof (cases rule: loadShape_Inr)
  case (1 n)
  with assms(2) show ?thesis by simp
next
  case (2 n m1 s1 P UV)
  from material_mesh_Inr(1,2) [OF 2(3)] have "meshes s1 = meshes s" "mesh_ok m1"
    by (simp_all add: mesh_ok_def)
  with 2 assms(2) show ?thesis by (simp add: upload_mesh_meshes mesh_ok_def)
qed

lemma shape_loop_mesh_ok:
  "shape_loop E A M S s = Inr s' \<Longrightarrow> list_all mesh_ok (meshes s) \<Longrightarrow> list_all mesh_ok (meshes s')"
  by (induction S arbitrary: s) (auto split: sum.splits dest: loadShape_mesh_ok)

lemma loadOBJ_mesh_ok:
  "loadOBJ E file base s = Inr s' \<Longrightarrow> list_all mesh_ok (meshes s) \<Longrightarrow> list_all mesh_ok (meshes s')"
  by (auto simp: loadOBJ_def Let_def split: if_splits dest: shape_loop_mesh_ok)

lemma matName_of_vec_at: "vec_at M mid = Inr mat \<Longrightarrow> matName_of M mid = Inr (mat_name mat)"
  by (auto simp: matName_of_def dest: vec_at_Inr)



subsection \<open>Buffers and the material of the first face\<close>




lemma skip_water_named_water:
  assumes "matName_of M (first_mid sh) = Inr n"
  shows "skip_water sh n = named_water M sh"
proof (cases "material_ids (mesh sh)")
  case Nil
  with assms show ?thesis
    by (auto simp: first_mid_def matName_of_def skip_water_def named_water_def
          first_face_material_def)
next
  case (Cons i rest)
  with assms show ?thesis
    by (auto simp: first_mid_def matName_of_def skip_water_def named_water_def
          first_face_material_def split: if_splits sum.splits dest!: vec_at_Inr)
qed

lemma material_mesh_first_face:
  assumes "material_mesh E M (first_mid sh) s = Inr (m1, s1)"
  shows "case first_face_material M sh of
           None \<Rightarrow> m1 = new_mesh \<and> s1 = s
         | Some mat \<Rightarrow> m1 = fst (apply_material E mat new_mesh s) \<and>
                        s1 = snd (apply_material E mat new_mesh s)"
  using assms
proof (cases rule: material_mesh_cases)
  case 1
  then show ?thesis
    by (cases "material_ids (mesh sh)") (auto simp: first_mid_def first_face_material_def)
next
  case (2 mat)
  from 2(2) have "mat = M ! nat (first_mid sh)" by (auto dest: vec_at_Inr)
  with 2 show ?thesis
    by (cases "material_ids (mesh sh)") (auto simp: first_mid_def first_face_material_def)
qed

lemma loadShape_named_water:
  assumes "loadShape E A M sh s = Inr s'"
  shows "(meshes s' = meshes s) = named_water M sh"
  using assms
proof (cases rule: loadShape_Inr)
  case (1 n)
  then show ?thesis by (simp add: skip_water_named_water)
next
  case (2 n m1 s1 P UV)
  from material_mesh_Inr(1) [OF 2(3)] have "meshes s1 = meshes s" .
  with 2 show ?thesis by (simp add: skip_water_named_water upload_mesh_meshes)
qed

lemma loadShape_attrs:
  assumes "loadShape E A M sh s = Inr s'" and "meshes s' \<noteq> meshes s"
  shows "meshes s' = meshes s @ [last (meshes s')]"
    and "verts (last (meshes s')) = of_nat (sum_list (num_face_vertices (mesh sh)))"
    and "case first_face_material M sh of
           None \<Rightarrow> kd (last (meshes s')) = (1, 1, 1) \<and> opacity (last (meshes s')) = 1 \<and>
                     \<not> transparent (last (meshes s')) \<and> \<not> hasTex (last (meshes s')) \<and>
                     tex (last (meshes s')) = 0
         | Some mat \<Rightarrow>
             kd (last (meshes s')) = diffuse mat \<and> opacity (last (meshes s')) = dissolve mat \<and>
             transparent (last (meshes s')) = (dissolve mat < 0.999) \<and>
             hasTex (last (meshes s')) = (diffuse_texname mat \<noteq> []) \<and>
             tex (last (meshes s')) =
               (if diffuse_texname mat = [] then 0 else fst (loadTex E (diffuse_texname mat) s))"
proof -
  from assms(1) have nw: "\<not> named_water M sh"
    using assms(2) by (simp add: loadShape_named_water)
  from assms(1) show "meshes s' = meshes s @ [last (meshes s')]"
  proof (cases rule: loadShape_Inr)
    case (1 n)
    with assms(2) show ?thesis by simp
  next
    case (2 n m1 s1 P UV)
    from material_mesh_Inr(1) [OF 2(3)] have "meshes s1 = meshes s" .
    with 2 show ?thesis by (simp add: upload_mesh_meshes)
  qed
  from assms(1) obtain n m1 s1 P UV where
    mm: "material_mesh E M (first_mid sh) s = Inr (m1, s1)" and
    fl: "face_loop A (indices (mesh sh)) (num_face_vertices (mesh sh)) 0 ([], []) = Inr (P, UV)" and
    s': "s' = upload_mesh E (m1\<lparr>verts := of_nat (length P div 3)\<rparr>) P UV s1"
  proof (cases rule: loadShape_Inr)
    case (1 n)
    with assms(2) show ?thesis by simp
  next
    case (2 n m1 s1 P UV)
    then show ?thesis by (intro that)
  qed
  from s' have l: "last (meshes s') = m1\<lparr>verts := of_nat (length P div 3), vao := glGen E (gens s1),
          vboPos := glGen E (gens s1 + 1), vboUV := glGen E (gens s1 + 2)\<rparr>"
    by (simp add: upload_mesh_meshes)
  from face_loop_lengths [OF fl] l
  show "verts (last (meshes s')) = of_nat (sum_list (num_face_vertices (mesh sh)))"
    by simp
  from material_mesh_first_face [OF mm] l
  show "case first_face_material M sh of
           None \<Rightarrow> kd (last (meshes s')) = (1, 1, 1) \<and> opacity (last (meshes s')) = 1 \<and>
                     \<not> transparent (last (meshes s')) \<and> \<not> hasTex (last (meshes s')) \<and>
                     tex (last (meshes s')) = 0
         | Some mat \<Rightarrow>
             kd (last (meshes s')) = diffuse mat \<and> opacity (last (meshes s')) = dissolve mat \<and>
             transparent (last (meshes s')) = (dissolve mat < 0.999) \<and>
             hasTex (last (meshes s')) = (diffuse_texname mat \<noteq> []) \<and>
             tex (last (meshes s')) =
               (if diffuse_texname mat = [] then 0 else fst (loadTex E (diffuse_texname mat) s))"
    by (auto simp: apply_material_fst new_mesh_def opaque_limit_def split: option.splits)
qed

lemma loadShape_drawunit:
  assumes "loadShape E A M sh s = Inr s'" and "meshes s' \<noteq> meshes s"
  shows "drawunit_of M sh (last (meshes s'))"
  using loadShape_attrs(2,3) [OF assms]
  by (auto simp: drawunit_of_def split: option.splits)

lemma shape_loop_drawunits:
  "shape_loop E A M S s = Inr s' \<Longrightarrow>
   \<exists>ms. meshes s' = meshes s @ ms \<and>
     list_all2 (drawunit_of M) (filter (\<lambda>sh. \<not> named_water M sh) S) ms"
proof (induction S arbitrary: s)
  case Nil
  then show ?case by simp
next
  case (Cons sh S)
  from Cons.prems obtain s1 where l: "loadShape E A M sh s = Inr s1"
    and r: "shape_loop E A M S s1 = Inr s'"
    by (auto split: sum.splits)
  from Cons.IH [OF r] obtain ms where ms: "meshes s' = meshes s1 @ ms"
    and a: "list_all2 (drawunit_of M) (filter (\<lambda>sh. \<not> named_water M sh) S) ms"
    by blast
  show ?case
  proof (cases "named_water M sh")
    case True
    with loadShape_named_water [OF l] have "meshes s1 = meshes s" by simp
    with ms a True show ?thesis by simp
  next
    case False
    with loadShape_named_water [OF l] have ne: "meshes s1 \<noteq> meshes s" by simp
    from loadShape_attrs(1) [OF l ne] loadShape_drawunit [OF l ne] ms a False
    show ?thesis by (intro exI [of _ "last (meshes s1) # ms"]) simp
  qed
qed


subsection \<open>Render pipeline\<close>

lemma drawMesh_fields [simp]:
  "calls (drawMesh m a b c s) = calls s @ drawMesh_calls m a b c"
  "meshes (drawMesh m a b c s) = meshes s"
  "ax (drawMesh m a b c s) = ax s" "ay (drawMesh m a b c s) = ay s"
  "sx (drawMesh m a b c s) = sx s" "sy (drawMesh m a b c s) = sy s"
  "aspect (drawMesh m a b c s) = aspect s"
  "texCache (drawMesh m a b c s) = texCache s" "gens (drawMesh m a b c s) = gens s"
  by (simp_all add: drawMesh_def)

lemma draw_opaque_calls:
  "calls (draw_opaque ms L s) =
     calls s @ concat (map (\<lambda>m. drawMesh_calls m (locUT L) (locBC L) (locOp L))
                        (filter (\<lambda>m. \<not> transparent m) ms))"
  by (induction ms arbitrary: s) simp_all

lemma draw_transparent_calls:
  "calls (draw_transparent ms L s) =
     calls s @ concat (map (\<lambda>m. drawMesh_calls m (locUT L) (locBC L) (locOp L))
                        (filter transparent ms))"
  by (induction ms arbitrary: s) simp_all

lemma draw_opaque_fields [simp]:
  "meshes (draw_opaque ms L s) = meshes s" "ax (draw_opaque ms L s) = ax s"
  "ay (draw_opaque ms L s) = ay s" "sx (draw_opaque ms L s) = sx s"
  "sy (draw_opaque ms L s) = sy s" "aspect (draw_opaque ms L s) = aspect s"
  "texCache (draw_opaque ms L s) = texCache s" "gens (draw_opaque ms L s) = gens s"
  by (induction ms arbitrary: s) simp_all

lemma draw_transparent_fields [simp]:
  "meshes (draw_transparent ms L s) = meshes s" "ax (draw_transparent ms L s) = ax s"
  "ay (draw_transparent ms L s) = ay s" "sx (draw_transparent ms L s) = sx s"
  "sy (draw_transparent ms L s) = sy s" "aspect (draw_transparent ms L s) = aspect s"
  "texCache (draw_transparent ms L s) = texCache s" "gens (draw_transparent ms L s) = gens s"
  by (induction ms arbitrary: s) simp_all

lemma frame_fields:
  "fst (frame G L cur prev s) = cur"
  "meshes (snd (frame G L cur prev s)) = meshes s"
  "ax (snd (frame G L cur prev s)) = f32 (ax s + f32 (sx s * f32 (f64 (cur - prev))))"
  "ay (snd (frame G L cur prev s)) = f32 (ay s + f32 (sy s * f32 (f64 (cur - prev))))"
  "sx (snd (frame G L cur prev s)) = sx s" "sy (snd (frame G L cur prev s)) = sy s"
  "aspect (snd (frame G L cur prev s)) = aspect s"
  "texCache (snd (frame G L cur prev s)) = texCache s"
  "gens (snd (frame G L cur prev s)) = gens s"
  by (simp_all add: frame_def Let_def)

lemma frame_calls:
  "calls (snd (frame G L cur prev s)) =
     calls s
     @ [Clear, UniformMatrix4fv (locMVP L) 1 False
          (mvp_matrix G (aspect s) (f32 (ax s + f32 (sx s * f32 (f64 (cur - prev)))))
           (f32 (ay s + f32 (sy s * f32 (f64 (cur - prev))))))]
     @ pass_calls L (filter (\<lambda>m. \<not> transparent m) (meshes s))
     @ [DepthMask False]
     @ pass_calls L (filter transparent (meshes s))
     @ [DepthMask True, SwapBuffers, PollEvents]"
  by (simp add: frame_def Let_def draw_opaque_calls draw_transparent_calls pass_calls_def)

lemma draws_pass_calls:
  "draws d v (pass_calls L ms @ cs) =
     map (\<lambda>m. (vao m, verts m, d)) ms @ draws d (if ms = [] then v else vao (last ms)) cs"
  by (induction ms arbitrary: v) (simp_all add: pass_calls_def drawMesh_calls_def)

lemma depth_mask_after_pass_calls:
  "depth_mask_after d (pass_calls L ms @ cs) = depth_mask_after d cs"
  by (induction ms) (simp_all add: pass_calls_def drawMesh_calls_def)


lemma filter_mesh_ok:
  "list_all mesh_ok ms \<Longrightarrow>
   filter (\<lambda>m. \<not> transparent m) ms = filter (\<lambda>m. opacity m \<ge> opaque_limit) ms \<and>
   filter transparent ms = filter (\<lambda>m. opacity m < opaque_limit) ms"
  by (induction ms) (auto simp: mesh_ok_def)

lemma frame_calls_of_eq:
  "frame_calls_of G L cur prev s =
     [Clear, UniformMatrix4fv (locMVP L) 1 False
        (mvp_matrix G (aspect s) (f32 (ax s + f32 (sx s * f32 (f64 (cur - prev)))))
           (f32 (ay s + f32 (sy s * f32 (f64 (cur - prev))))))]
     @ pass_calls L (filter (\<lambda>m. \<not> transparent m) (meshes s))
     @ [DepthMask False]
     @ pass_calls L (filter transparent (meshes s))
     @ [DepthMask True, SwapBuffers, PollEvents]"
  by (simp add: frame_calls_of_def frame_calls)

lemma frame_draws:
  "draws d v (frame_calls_of G L cur prev s) =
     map (\<lambda>m. (vao m, verts m, d)) (filter (\<lambda>m. \<not> transparent m) (meshes s)) @
     map (\<lambda>m. (vao m, verts m, False)) (filter transparent (meshes s))"
  by (simp add: frame_calls_of_eq draws_pass_calls)

lemma frame_depth_mask_after: "depth_mask_after d (frame_calls_of G L cur prev s) = True"
  by (simp add: frame_calls_of_eq depth_mask_after_pass_calls)


subsection \<open>Uploads and cache entries\<close>

lemma loadTex_cache_counts: "cache_counts s \<Longrightarrow> cache_counts (snd (loadTex E f s))"
proof (cases "texCache s f")
  case (Some t)
  assume "cache_counts s"
  with Some show ?thesis by (simp add: loadTex_cached)
next
  case None
  assume c: "cache_counts s"
  show ?thesis
  proof (cases "stbi_load E f")
    case dn: None
    with None c show ?thesis by (simp add: loadTex_failed cache_counts_def uploads_def)
  next
    case (Some d)
    from None have "f \<notin> dom (texCache s)" by auto
    with c have "card (insert f (dom (texCache s))) = Suc (card (dom (texCache s)))"
      by (simp add: cache_counts_def)
    with c loadTex_decoded [OF None Some] show ?thesis
      by (simp add: cache_counts_def)
  qed
qed

lemma upload_mesh_cache_counts: "cache_counts s \<Longrightarrow> cache_counts (upload_mesh E m P UV s)"
  by (simp add: cache_counts_def upload_mesh_def Let_def uploads_def)

lemma material_mesh_cache_counts:
  assumes "material_mesh E M mid s = Inr (m1, s1)" and "cache_counts s"
  shows "cache_counts s1"
  using assms
  by (cases rule: material_mesh_cases) (simp_all add: apply_material_snd loadTex_cache_counts)

lemma loadShape_cache_counts:
  assumes "loadShape E A M sh s = Inr s'" and "cache_counts s"
  shows "cache_counts s'"
  using assms(1)
proof (cases rule: loadShape_Inr)
  case (1 n)
  with assms(2) show ?thesis by simp
next
  case (2 n m1 s1 P UV)
  from material_mesh_cache_counts [OF 2(3) assms(2)] 2(5) show ?thesis
    by (simp add: upload_mesh_cache_counts)
qed

lemma shape_loop_cache_counts:
  "shape_loop E A M S s = Inr s' \<Longrightarrow> cache_counts s \<Longrightarrow> cache_counts s'"
  by (induction S arbitrary: s) (auto split: sum.splits dest: loadShape_cache_counts)

lemma loadOBJ_cache_counts:
  "loadOBJ E file base s = Inr s' \<Longrightarrow> cache_counts s \<Longrightarrow> cache_counts s'"
  by (auto simp: loadOBJ_def Let_def split: if_splits dest: shape_loop_cache_counts)

lemma uploads_pass_calls: "uploads (pass_calls L ms :: 'm call list) = 0"
  by (induction ms) (simp_all add: pass_calls_def drawMesh_calls_def uploads_def)

lemma uploads_append: "uploads (cs @ ds) = uploads cs + uploads ds"
  by (simp add: uploads_def)

lemma uploads_Nil: "uploads [] = 0"
  by (simp add: uploads_def)

lemma uploads_Cons: "uploads (c # cs) = (if is_upload c then 1 else 0) + uploads cs"
  by (simp add: uploads_def)

lemma frame_no_uploads: "uploads (frame_calls_of G L cur prev s) = 0"
  by (simp add: frame_calls_of_eq uploads_append uploads_Cons uploads_Nil uploads_pass_calls)

section \<open>The claims of the specification\<close>

text \<open>
  The examples are run by unfolding the definitions of the program and of the example
  inputs.
\<close>

lemmas example_defs =
  example_env_def example_image_def example_attrib_def example_materials_def triangle_def
  water_shape_def glass_shape_def rock_shape_def pond_shape_def lake_shape_def layered_shape_def fifth_attrib_def
  mixed_shape_def example_glm_def example_locs_def

lemmas run_defs =
  loadOBJ_def loadShape_def first_mid_def matName_of_def skip_water_def vec_at_def
  material_mesh_def apply_material_def loadTex_def init_state_def emit_def new_mesh_def
  opaque_limit_def vertex_loop.simps push_vertex_def upload_mesh_def Let_def
  uploads_def decodes_def f32_def f64_def fp_round_def rne_def expo_def pow2_def
  log2_floor.simps

subsection \<open>C1: a texture that fails to decode\<close>

text \<open>
  Claim C1: if the texture at a DrawUnit's diffuse texture path fails to decode, the
  import still completes and that DrawUnit is rendered with its base color and no texture:
  the sentinel handle 0 is treated as untextured, \<^verbatim>\<open>hasTex\<close> is not set.

  The import completes, but the program does not do the rest. In \<^verbatim>\<open>rock.obj\<close> the
  material names \<^verbatim>\<open>missing.png\<close>, which does not decode: \<^verbatim>\<open>loadTex\<close> returns 0 and line
  131 sets \<^verbatim>\<open>hasTex\<close> all the same, so that \<^verbatim>\<open>drawMesh\<close> sets \<^verbatim>\<open>useTexture\<close> to 1 and
  binds texture 0.
\<close>

theorem failed_texture_still_marked_textured:
  "stbi_load example_env ''missing.png'' = None \<and>
   (case loadOBJ example_env ''rock.obj'' ''./'' (init_state :: unit state) of
      Inl e \<Rightarrow> False
    | Inr s \<Rightarrow>
        map tex (meshes s) = [0, 0] \<and> map hasTex (meshes s) = [True, True] \<and>
        map kd (meshes s) = [(0.4, 0.4, 0.4), (0.4, 0.4, 0.4)] \<and>
        (drawMesh_calls (hd (meshes s)) 1 2 3 :: unit call list) =
          [Uniform1i 1 1, Uniform3fv 2 1 (0.4, 0.4, 0.4), Uniform1f 3 0.999,
           ActiveTexture GL_TEXTURE0, BindTexture GL_TEXTURE_2D 0,
           BindVertexArray 1, DrawArrays GL_TRIANGLES 0 3])"
  by (simp add: run_defs example_defs drawMesh_calls_def)

subsection \<open>C2: the two draw passes\<close>

text \<open>
  Claim C2: in every frame's draw calls, every DrawUnit with opacity at least 0.999 is
  drawn, in Scene order, before any DrawUnit with opacity below 0.999, in Scene order;
  depth write is disabled for exactly the transparent draws, and enabled again
  immediately after the transparent pass.

  The meshes are those \<^verbatim>\<open>loadOBJ\<close> built, starting from none; the device has depth
  write enabled when the frame begins, as it has by default and after every frame.
\<close>

theorem frame_opaque_then_transparent:
  assumes "loadOBJ E file base s0 = Inr s1" and "meshes s0 = []" and "meshes s = meshes s1"
  shows
    "frame_calls_of G L cur prev s =
       [Clear, UniformMatrix4fv (locMVP L) 1 False
          (mvp_matrix G (aspect s) (f32 (ax s + f32 (sx s * f32 (f64 (cur - prev)))))
             (f32 (ay s + f32 (sy s * f32 (f64 (cur - prev))))))]
       @ pass_calls L (filter (\<lambda>m. 0.999 \<le> opacity m) (meshes s))
       @ [DepthMask False]
       @ pass_calls L (filter (\<lambda>m. opacity m < 0.999) (meshes s))
       @ [DepthMask True, SwapBuffers, PollEvents] \<and>
     draws True v (frame_calls_of G L cur prev s) =
       map (\<lambda>m. (vao m, verts m, True)) (filter (\<lambda>m. 0.999 \<le> opacity m) (meshes s)) @
       map (\<lambda>m. (vao m, verts m, False)) (filter (\<lambda>m. opacity m < 0.999) (meshes s)) \<and>
     depth_mask_after d (frame_calls_of G L cur prev s) = True \<and>
     meshes (snd (frame G L cur prev s)) = meshes s"
proof -
  from assms(2) have "list_all mesh_ok (meshes s0)" by simp
  with assms(1) have "list_all mesh_ok (meshes s1)" by (rule loadOBJ_mesh_ok)
  with assms(3) have "list_all mesh_ok (meshes s)" by simp
  from filter_mesh_ok [OF this] have
    o: "filter (\<lambda>m. \<not> transparent m) (meshes s) = filter (\<lambda>m. 0.999 \<le> opacity m) (meshes s)"
    and t: "filter transparent (meshes s) = filter (\<lambda>m. opacity m < 0.999) (meshes s)"
    by (simp_all add: opaque_limit_def)
  have c: "frame_calls_of G L cur prev s =
       [Clear, UniformMatrix4fv (locMVP L) 1 False
          (mvp_matrix G (aspect s) (f32 (ax s + f32 (sx s * f32 (f64 (cur - prev)))))
             (f32 (ay s + f32 (sy s * f32 (f64 (cur - prev))))))]
       @ pass_calls L (filter (\<lambda>m. 0.999 \<le> opacity m) (meshes s))
       @ [DepthMask False]
       @ pass_calls L (filter (\<lambda>m. opacity m < 0.999) (meshes s))
       @ [DepthMask True, SwapBuffers, PollEvents]"
    using frame_calls_of_eq [of G L cur prev s] by (simp only: o t)
  have w: "draws True v (frame_calls_of G L cur prev s) =
       map (\<lambda>m. (vao m, verts m, True)) (filter (\<lambda>m. 0.999 \<le> opacity m) (meshes s)) @
       map (\<lambda>m. (vao m, verts m, False)) (filter (\<lambda>m. opacity m < 0.999) (meshes s))"
    using frame_draws [of True v G L cur prev s] by (simp only: o t)
  have a: "depth_mask_after d (frame_calls_of G L cur prev s) = True"
    by (rule frame_depth_mask_after)
  have k: "meshes (snd (frame G L cur prev s)) = meshes s"
    by (rule frame_fields)
  from c w a k show ?thesis by blast
qed

text \<open>
  C2 on the example: \<^verbatim>\<open>aquarium.obj\<close> gives one transparent mesh, drawn with depth write
  disabled.
\<close>

theorem frame_opaque_then_transparent_witness:
  "\<not> isl (loadOBJ example_env ''aquarium.obj'' ''./'' (init_state :: real list state)) \<and>
   meshes (init_state :: real list state) = [] \<and>
   map opacity (meshes (projr (loadOBJ example_env ''aquarium.obj'' ''./''
      (init_state :: real list state)))) = [0.5] \<and>
   draws True 0 (frame_calls_of example_glm example_locs 1 0
      (projr (loadOBJ example_env ''aquarium.obj'' ''./'' (init_state :: real list state)))) =
     [(2, 3, False)]"
proof -
  let ?r = "loadOBJ example_env ''aquarium.obj'' ''./'' (init_state :: real list state)"
  have i: "\<not> isl ?r" by (simp add: run_defs example_defs)
  then have h1: "?r = Inr (projr ?r)" by simp
  have h2: "meshes (init_state :: real list state) = []" by (simp add: init_state_def)
  have m: "meshes (projr ?r) =
     [\<lparr>vao = 2, vboPos = 3, vboUV = 4, tex = 1, hasTex = True, kd = (0.1, 0.2, 0.3), verts = 3,
       transparent = True, opacity = 0.5\<rparr>]"
    by (simp add: run_defs example_defs)
  note r = frame_opaque_then_transparent [OF h1 h2 refl, where v = 0 and G = example_glm
      and L = example_locs and cur = 1 and prev = 0 and d = True]
  from r [THEN conjunct2, THEN conjunct1] i h2 m
  show ?thesis by simp
qed

subsection \<open>C3: which shapes are dropped\<close>

text \<open>
  Claim C3 says that a shape yields no DrawUnit if and only if its name or its material
  name is one of \<^verbatim>\<open>Water\<close> and \<^verbatim>\<open>water\<close>, so that a shape named \<^verbatim>\<open>water\<close> or a material named
  \<^verbatim>\<open>Water\<close> is dropped too. Against C3 as stated: the shape named \<^verbatim>\<open>water\<close> and the shape
  whose material is named \<^verbatim>\<open>Water\<close> each yield a mesh.
\<close>

theorem water_excluded_case_insensitively_counterexample:
  "shape_name pond_shape \<in> {''Water'', ''water''} \<and>
   (case loadShape example_env example_attrib example_materials pond_shape
           (init_state :: unit state) of
      Inl e \<Rightarrow> False
    | Inr s \<Rightarrow> length (meshes s) = 1) \<and>
   matName_of example_materials (first_mid lake_shape) = Inr ''Water'' \<and>
   (case loadShape example_env example_attrib example_materials lake_shape
           (init_state :: unit state) of
      Inl e \<Rightarrow> False
    | Inr s \<Rightarrow> length (meshes s) = 1)"
  by (simp add: run_defs example_defs)

text \<open>
  Claim C3, amended: a shape yields no DrawUnit if and only if its name is \<^verbatim>\<open>Water\<close> or
  the material at the material index of its first face is named \<^verbatim>\<open>water\<close>; every other
  shape yields exactly one DrawUnit, added at the end. After the loop the Scene is what it
  was, followed by one DrawUnit for each shape that is not dropped, in the order of the
  shapes: the DrawUnit at each place has the vertex count, base color and opacity of the
  shape at that place.
\<close>

theorem shape_dropped_iff_named_water:
  "named_water M sh =
     (shape_name sh = ''Water'' \<or>
      (\<exists>i rest. material_ids (mesh sh) = i # rest \<and> 0 \<le> i \<and> mat_name (M ! nat i) = ''water'')) \<and>
   (loadShape E A M sh s = Inr s' \<longrightarrow>
      (meshes s' = meshes s) = named_water M sh \<and>
      (\<not> named_water M sh \<longrightarrow>
         meshes s' = meshes s @ [last (meshes s')] \<and> drawunit_of M sh (last (meshes s')))) \<and>
   (shape_loop E A M S s = Inr s'' \<longrightarrow>
      take (length (meshes s)) (meshes s'') = meshes s \<and>
      list_all2 (drawunit_of M) (filter (\<lambda>sh. \<not> named_water M sh) S)
        (drop (length (meshes s)) (meshes s'')))"
proof (intro conjI impI)
  show "named_water M sh =
     (shape_name sh = ''Water'' \<or>
      (\<exists>i rest. material_ids (mesh sh) = i # rest \<and> 0 \<le> i \<and> mat_name (M ! nat i) = ''water''))"
    by (cases "material_ids (mesh sh)") (auto simp: named_water_def first_face_material_def)
next
  assume l: "loadShape E A M sh s = Inr s'"
  then show "(meshes s' = meshes s) = named_water M sh"
    by (rule loadShape_named_water)
  assume "\<not> named_water M sh"
  with loadShape_named_water [OF l] have ne: "meshes s' \<noteq> meshes s" by simp
  from l ne show "meshes s' = meshes s @ [last (meshes s')]" by (rule loadShape_attrs(1))
  from l ne show "drawunit_of M sh (last (meshes s'))" by (rule loadShape_drawunit)
next
  assume "shape_loop E A M S s = Inr s''"
  from shape_loop_drawunits [OF this] obtain ms where ms: "meshes s'' = meshes s @ ms"
    and a: "list_all2 (drawunit_of M) (filter (\<lambda>sh. \<not> named_water M sh) S) ms"
    by blast
  from ms show "take (length (meshes s)) (meshes s'') = meshes s" by simp
  from ms a show "list_all2 (drawunit_of M) (filter (\<lambda>sh. \<not> named_water M sh) S)
        (drop (length (meshes s)) (meshes s''))" by simp
qed

text \<open>
  C3 amended, on the example: of \<^verbatim>\<open>Layered\<close>, \<^verbatim>\<open>Water\<close> and \<^verbatim>\<open>Glass\<close>, the second is dropped
  and the two others give their DrawUnits in that order.
\<close>

theorem shape_dropped_iff_named_water_witness:
  "loadShape example_env example_attrib example_materials water_shape (init_state :: unit state)
     = Inr init_state \<and>
   named_water example_materials water_shape \<and>
   \<not> isl (shape_loop example_env example_attrib example_materials
            [layered_shape, water_shape, glass_shape] (init_state :: unit state)) \<and>
   filter (\<lambda>sh. \<not> named_water example_materials sh) [layered_shape, water_shape, glass_shape] =
     [layered_shape, glass_shape] \<and>
   map (\<lambda>m. (verts m, opacity m)) (meshes (projr (shape_loop example_env example_attrib
      example_materials [layered_shape, water_shape, glass_shape] (init_state :: unit state)))) =
     [(6, 0.999), (3, 0.5)]"
proof -
  let ?S = "[layered_shape, water_shape, glass_shape]"
  let ?r = "shape_loop example_env example_attrib example_materials ?S (init_state :: unit state)"
  have h1: "loadShape example_env example_attrib example_materials water_shape
              (init_state :: unit state) = Inr init_state"
    by (simp add: loadShape_def first_mid_def matName_of_def skip_water_def water_shape_def)
  have h2: "\<not> isl ?r"
    by (simp add: run_defs example_defs)
  then have h3: "?r = Inr (projr ?r)" by simp
  have n: "named_water example_materials water_shape"
    "filter (\<lambda>sh. \<not> named_water example_materials sh) ?S = [layered_shape, glass_shape]"
    by (simp_all add: named_water_def first_face_material_def example_defs)
  have v: "map (\<lambda>m. (verts m, opacity m)) (meshes (projr ?r)) = [(6, 0.999), (3, 0.5)]"
    by (simp add: run_defs example_defs)
  from shape_dropped_iff_named_water [of example_materials water_shape example_env example_attrib
      "init_state :: unit state" init_state ?S "projr ?r"]
    h1 h2 h3 n v
  show ?thesis by simp
qed

subsection \<open>C4: the transparent flag\<close>

text \<open>
  Claim C4: for every retained shape with a material, the DrawUnit has
  \<^verbatim>\<open>transparent = true\<close> exactly when the dissolve of the material is strictly less than
  0.999; a dissolve of 0.999 gives \<^verbatim>\<open>transparent = false\<close>.
\<close>

theorem transparent_iff_dissolve_below_limit:
  assumes "loadShape E A M sh s = Inr s'"
    and "vec_at M (first_mid sh) = Inr mat"
    and "shape_name sh \<noteq> ''Water''" and "mat_name mat \<noteq> ''water''"
  shows "transparent (last (meshes s')) = (dissolve mat < 0.999) \<and>
         opacity (last (meshes s')) = dissolve mat \<and>
         (dissolve mat = 0.999 \<longrightarrow> \<not> transparent (last (meshes s')))"
proof -
  from assms(2) have n: "matName_of M (first_mid sh) = Inr (mat_name mat)"
    by (rule matName_of_vec_at)
  with assms(3,4) have k: "\<not> (shape_name sh = ''Water'' \<or> matName_of M (first_mid sh) = Inr ''water'')"
    by simp
  from assms(1) k obtain m1 s1 and P :: "real list" where
    mm: "material_mesh E M (first_mid sh) s = Inr (m1, s1)" and
    l: "last (meshes s') = m1\<lparr>verts := of_nat (length P div 3), vao := glGen E (gens s1),
          vboPos := glGen E (gens s1 + 1), vboUV := glGen E (gens s1 + 2)\<rparr>"
    by (rule loadShape_last)
  from mm have "m1 = fst (apply_material E mat new_mesh s)"
  proof (cases rule: material_mesh_cases)
    case 1
    with assms(2) show ?thesis by (auto dest: vec_at_Inr)
  next
    case (2 mat')
    with assms(2) show ?thesis by simp
  qed
  with l show ?thesis
    by (simp add: apply_material_fst opaque_limit_def)
qed

text \<open>
  C4 on the example: the rock has dissolve 0.999 and is not transparent.
\<close>

theorem transparent_iff_dissolve_below_limit_witness:
  "\<not> isl (loadShape example_env example_attrib example_materials rock_shape (init_state :: unit state)) \<and>
   vec_at example_materials (first_mid rock_shape) = Inr (example_materials ! 1) \<and>
   dissolve (example_materials ! 1) = 0.999 \<and>
   \<not> transparent (last (meshes (projr
       (loadShape example_env example_attrib example_materials rock_shape (init_state :: unit state)))))"
proof -
  let ?r = "loadShape example_env example_attrib example_materials rock_shape (init_state :: unit state)"
  have "\<not> isl ?r" by (simp add: run_defs example_defs)
  then have h1: "?r = Inr (projr ?r)" by simp
  have h2: "vec_at example_materials (first_mid rock_shape) = Inr (example_materials ! 1)"
    by (simp add: run_defs example_defs)
  have h3: "shape_name rock_shape \<noteq> ''Water''" "mat_name (example_materials ! 1) \<noteq> ''water''"
    "dissolve (example_materials ! 1) = 0.999"
    by (simp_all add: example_defs)
  from transparent_iff_dissolve_below_limit [OF h1 h2 h3(1,2)] h2 h3 \<open>\<not> isl ?r\<close>
  show ?thesis by simp
qed

subsection \<open>C5: one upload per path\<close>

text \<open>
  Claim C5: for every path \<open>p\<close>, resolving \<open>p\<close> twice returns the same handle; when
  \<open>p\<close> decodes, the second call changes nothing (no decode, no GL call, no allocation)
  and any run of calls decodes \<open>p\<close> at most once. A run of calls makes exactly one
  upload for each distinct path of the run that decodes and is not yet cached, and
  after \<^verbatim>\<open>loadOBJ\<close> the trace holds as many uploads as the cache holds paths; a frame
  uploads nothing.
\<close>

theorem loadTex_resolves_once:
  "fst (loadTex E p (snd (loadTex E p s))) = fst (loadTex E p s) \<and>
   (stbi_load E p \<noteq> None \<longrightarrow>
      snd (loadTex E p (snd (loadTex E p s))) = snd (loadTex E p s) \<and>
      decodes p (calls (loadTex_seq E ps s)) \<le> decodes p (calls s) + 1) \<and>
   uploads (calls (loadTex_seq E ps s)) =
     uploads (calls s) + card {f \<in> set ps. texCache s f = None \<and> stbi_load E f \<noteq> None} \<and>
   (cache_counts s \<and> loadOBJ E file base s = Inr s' \<longrightarrow>
      uploads (calls s') = card (dom (texCache s')) \<and>
      uploads (frame_calls_of G L cur prev s') = 0)"
proof (intro conjI impI)
  show "fst (loadTex E p (snd (loadTex E p s))) = fst (loadTex E p s)"
    by (rule loadTex_same_handle)
next
  assume "stbi_load E p \<noteq> None"
  then show "snd (loadTex E p (snd (loadTex E p s))) = snd (loadTex E p s)"
    by (rule loadTex_second_noop)
next
  assume "stbi_load E p \<noteq> None"
  then show "decodes p (calls (loadTex_seq E ps s)) \<le> decodes p (calls s) + 1"
    by (simp add: loadTex_seq_decodes_ok)
next
  show "uploads (calls (loadTex_seq E ps s)) =
     uploads (calls s) + card {f \<in> set ps. texCache s f = None \<and> stbi_load E f \<noteq> None}"
    by (rule loadTex_seq_uploads)
next
  assume "cache_counts s \<and> loadOBJ E file base s = Inr s'"
  then have "cache_counts s'" by (blast intro: loadOBJ_cache_counts)
  then show "uploads (calls s') = card (dom (texCache s'))"
    by (simp add: cache_counts_def)
next
  show "uploads (frame_calls_of G L cur prev s') = 0"
    by (rule frame_no_uploads)
qed

text \<open>
  C5 on the example: \<^verbatim>\<open>glass.png\<close> is uploaded once, whether resolved twice, in a run with
  another path, or by \<^verbatim>\<open>loadOBJ\<close>.
\<close>

theorem loadTex_resolves_once_witness:
  "stbi_load example_env ''glass.png'' \<noteq> None \<and>
   fst (loadTex example_env ''glass.png''
          (snd (loadTex example_env ''glass.png'' (init_state :: real list state)))) = 1 \<and>
   snd (loadTex example_env ''glass.png''
          (snd (loadTex example_env ''glass.png'' (init_state :: real list state)))) =
     snd (loadTex example_env ''glass.png'' init_state) \<and>
   decodes ''glass.png''
     (calls (loadTex_seq example_env [''glass.png'', ''missing.png'', ''glass.png'']
        (init_state :: real list state))) \<le> 1 \<and>
   uploads (calls (loadTex_seq example_env [''glass.png'', ''missing.png'', ''glass.png'']
        (init_state :: real list state))) = 1 \<and>
   cache_counts (init_state :: real list state) \<and>
   \<not> isl (loadOBJ example_env ''aquarium.obj'' ''./'' (init_state :: real list state)) \<and>
   card (dom (texCache (projr (loadOBJ example_env ''aquarium.obj'' ''./''
      (init_state :: real list state))))) = 1"
proof -
  let ?r = "loadOBJ example_env ''aquarium.obj'' ''./'' (init_state :: real list state)"
  have h: "stbi_load example_env ''glass.png'' \<noteq> None"
    by (simp add: example_env_def)
  have v: "fst (loadTex example_env ''glass.png'' (init_state :: real list state)) = 1"
    by (simp add: run_defs example_defs)
  have u: "uploads (calls (loadTex_seq example_env [''glass.png'', ''missing.png'', ''glass.png'']
        (init_state :: real list state))) = 1"
    by (simp add: run_defs example_defs)
  have d: "decodes ''glass.png'' (calls (init_state :: real list state)) = 0"
    by (simp add: run_defs)
  have c: "cache_counts (init_state :: real list state)"
    by (simp add: cache_counts_def run_defs)
  have i: "\<not> isl ?r" by (simp add: run_defs example_defs)
  then have o: "?r = Inr (projr ?r)" by simp
  have n: "uploads (calls (projr ?r)) = 1"
    by (simp add: run_defs example_defs)
  from loadTex_resolves_once [of example_env "''glass.png''" "init_state :: real list state"
      "[''glass.png'', ''missing.png'', ''glass.png'']" "''aquarium.obj''" "''./''" "projr ?r"
      example_glm example_locs 1 0] h v u d c i o n
  show ?thesis by simp
qed

subsection \<open>C6: vertex counts\<close>



subsection \<open>C7: the stored texture coordinates\<close>




subsection \<open>C8: the transform of a frame\<close>




subsection \<open>C9: a failed decode\<close>

text \<open>
  Claim C9 says that after a decode of \<open>p\<close> has failed, no later call decodes \<open>p\<close>
  again. Against C9 as stated: the second call of \<^verbatim>\<open>loadTex\<close> on \<^verbatim>\<open>missing.png\<close> decodes
  again, and \<^verbatim>\<open>loadOBJ\<close> on \<^verbatim>\<open>rock.obj\<close>, whose two shapes share that texture, decodes it
  twice.
\<close>

theorem loadTex_failed_decode_repeated:
  "stbi_load example_env ''missing.png'' = None \<and>
   decodes ''missing.png''
     (calls (snd (loadTex example_env ''missing.png'' (init_state :: unit state)))) = 1 \<and>
   decodes ''missing.png''
     (calls (snd (loadTex example_env ''missing.png''
        (snd (loadTex example_env ''missing.png'' (init_state :: unit state)))))) = 2 \<and>
   (case loadOBJ example_env ''rock.obj'' ''./'' (init_state :: unit state) of
      Inl e \<Rightarrow> False
    | Inr s \<Rightarrow> decodes ''missing.png'' (calls s) = 2)"
  by (simp add: run_defs example_defs)

text \<open>
  Claim C9, amended: a call of \<^verbatim>\<open>loadTex\<close> whose decode fails makes one decode attempt,
  returns 0 and leaves the cache as it was; nothing remembers the failure, and \<open>n\<close>
  calls in a row make \<open>n\<close> attempts.
\<close>

theorem loadTex_failed_decode_not_cached:
  assumes "stbi_load E p = None" and "texCache s p = None"
  shows "fst (loadTex E p s) = 0 \<and>
         texCache (snd (loadTex E p s)) = texCache s \<and>
         decodes p (calls (snd (loadTex E p s))) = decodes p (calls s) + 1 \<and>
         decodes p (calls (loadTex_seq E (replicate n p) s)) = decodes p (calls s) + n"
  using assms loadTex_seq_failed [OF assms, of n]
  by (simp add: loadTex_failed decodes_def)

text \<open>
  C9 amended, on the example: three calls on \<^verbatim>\<open>missing.png\<close>, three attempts.
\<close>

theorem loadTex_failed_decode_not_cached_witness:
  "stbi_load example_env ''missing.png'' = None \<and>
   texCache (init_state :: unit state) ''missing.png'' = None \<and>
   fst (loadTex example_env ''missing.png'' (init_state :: unit state)) = 0 \<and>
   decodes ''missing.png''
     (calls (loadTex_seq example_env (replicate 3 ''missing.png'') (init_state :: unit state))) = 3"
proof -
  have h1: "stbi_load example_env ''missing.png'' = None"
    by (simp add: example_env_def)
  have h2: "texCache (init_state :: unit state) ''missing.png'' = None"
    by (simp add: init_state_def)
  have d: "decodes ''missing.png'' (calls (init_state :: unit state)) = 0"
    by (simp add: run_defs)
  from loadTex_failed_decode_not_cached [OF h1 h2, of 3] h1 h2 d
  show ?thesis by simp
qed

subsection \<open>C10: the material of the first face\<close>

text \<open>
  Claim C10: the base color, opacity and texture of the DrawUnit of a retained shape are
  those of the material at the material index of the first face of the shape, or white,
  opacity 1 and no texture when the shape has no face or that index is negative; the
  material indices of the later faces are ignored: the shape cut down to its first
  material index loads to the same state.
\<close>

theorem material_is_that_of_first_face:
  assumes "loadShape E A M sh s = Inr s'" and "meshes s' \<noteq> meshes s"
  shows
    "(case material_ids (mesh sh) of
        [] \<Rightarrow> first_face_material M sh = None
      | i # rest \<Rightarrow> first_face_material M sh = (if 0 \<le> i then Some (M ! nat i) else None)) \<and>
     (case first_face_material M sh of
        None \<Rightarrow>
          kd (last (meshes s')) = (1, 1, 1) \<and> opacity (last (meshes s')) = 1 \<and>
          \<not> transparent (last (meshes s')) \<and> \<not> hasTex (last (meshes s')) \<and>
          tex (last (meshes s')) = 0
      | Some mat \<Rightarrow>
          kd (last (meshes s')) = diffuse mat \<and> opacity (last (meshes s')) = dissolve mat \<and>
          transparent (last (meshes s')) = (dissolve mat < 0.999) \<and>
          hasTex (last (meshes s')) = (diffuse_texname mat \<noteq> []) \<and>
          tex (last (meshes s')) =
            (if diffuse_texname mat = [] then 0 else fst (loadTex E (diffuse_texname mat) s))) \<and>
     loadShape E A M (sh\<lparr>mesh := (mesh sh)\<lparr>material_ids := take 1 (material_ids (mesh sh))\<rparr>\<rparr>) s
       = Inr s'"
proof (intro conjI)
  show "case material_ids (mesh sh) of
        [] \<Rightarrow> first_face_material M sh = None
      | i # rest \<Rightarrow> first_face_material M sh = (if 0 \<le> i then Some (M ! nat i) else None)"
    by (simp add: first_face_material_def split: list.splits)
next
  from assms show "case first_face_material M sh of
        None \<Rightarrow>
          kd (last (meshes s')) = (1, 1, 1) \<and> opacity (last (meshes s')) = 1 \<and>
          \<not> transparent (last (meshes s')) \<and> \<not> hasTex (last (meshes s')) \<and>
          tex (last (meshes s')) = 0
      | Some mat \<Rightarrow>
          kd (last (meshes s')) = diffuse mat \<and> opacity (last (meshes s')) = dissolve mat \<and>
          transparent (last (meshes s')) = (dissolve mat < 0.999) \<and>
          hasTex (last (meshes s')) = (diffuse_texname mat \<noteq> []) \<and>
          tex (last (meshes s')) =
            (if diffuse_texname mat = [] then 0 else fst (loadTex E (diffuse_texname mat) s))"
    by (rule loadShape_attrs(3))
next
  let ?sh = "sh\<lparr>mesh := (mesh sh)\<lparr>material_ids := take 1 (material_ids (mesh sh))\<rparr>\<rparr>"
  have fm: "first_mid ?sh = first_mid sh"
    by (cases "material_ids (mesh sh)") (simp_all add: first_mid_def)
  have a: "indices (mesh ?sh) = indices (mesh sh)"
    "num_face_vertices (mesh ?sh) = num_face_vertices (mesh sh)"
    by simp_all
  have sk: "skip_water ?sh = skip_water sh"
    by (simp add: skip_water_def fun_eq_iff)
  have "loadShape E A M ?sh s = loadShape E A M sh s"
    unfolding loadShape_def fm a sk ..
  with assms(1) show "loadShape E A M ?sh s = Inr s'" by simp
qed

text \<open>
  C10 on the example: the faces of \<^verbatim>\<open>Layered\<close> have the materials 1 and 0, and the
  DrawUnit has the base color and opacity of material 1.
\<close>

theorem material_is_that_of_first_face_witness:
  "\<not> isl (loadShape example_env example_attrib example_materials layered_shape
            (init_state :: unit state)) \<and>
   meshes (projr (loadShape example_env example_attrib example_materials layered_shape
      (init_state :: unit state))) \<noteq> meshes (init_state :: unit state) \<and>
   material_ids (mesh layered_shape) = [1, 0] \<and>
   first_face_material example_materials layered_shape = Some (example_materials ! 1) \<and>
   kd (last (meshes (projr (loadShape example_env example_attrib example_materials layered_shape
      (init_state :: unit state))))) = (0.4, 0.4, 0.4) \<and>
   opacity (last (meshes (projr (loadShape example_env example_attrib example_materials
      layered_shape (init_state :: unit state))))) = 0.999"
proof -
  let ?r = "loadShape example_env example_attrib example_materials layered_shape
              (init_state :: unit state)"
  have i: "\<not> isl ?r" by (simp add: run_defs example_defs)
  then have h1: "?r = Inr (projr ?r)" by simp
  have h2: "meshes (projr ?r) \<noteq> meshes (init_state :: unit state)"
    by (simp add: run_defs example_defs)
  have f: "first_face_material example_materials layered_shape = Some (example_materials ! 1)"
    "material_ids (mesh layered_shape) = [1, 0]"
    by (simp_all add: first_face_material_def example_defs)
  have d: "diffuse (example_materials ! 1) = (0.4, 0.4, 0.4)"
    "dissolve (example_materials ! 1) = 0.999"
    by (simp_all add: example_defs)
  from material_is_that_of_first_face [OF h1 h2] i h2 f d show ?thesis by simp
qed

end
